theory Spec2Isabelle
  imports Complex_Main "HOL-Library.AList"
begin

section \<open>LoopBreaker protocol: data model\<close>

text \<open>
  A shallow embedding of \<^verbatim>\<open>loopbreaker_protocol.py\<close>.

  Conventions of the embedding.
  \<^item> A \<^verbatim>\<open>datetime\<close> is the number of microseconds since some fixed instant, a
    \<^verbatim>\<open>timedelta\<close> a number of microseconds; both are \<^typ>\<open>int\<close>.
  \<^item> Every call of \<^verbatim>\<open>datetime.now()\<close> is an explicit argument of the function that
    makes it. No assumption is made on the readings.
  \<^item> The metrics are Python floats; they are modelled by \<^typ>\<open>real\<close>, every threshold being
    the decimal literal of the source.
  \<^item> An \<^verbatim>\<open>Intervention\<close> is a mutable object shared between the catalog and its callers.
    The field \<open>ident\<close> is the identity of the object (what \<^verbatim>\<open>id()\<close> returns); an
    assignment to \<^verbatim>\<open>last_executed\<close> updates the catalog entries of that identity.
  \<^item> An action function either returns a dictionary or raises an \<^verbatim>\<open>Exception\<close>, whose
    text is the \<open>Inl\<close> value.
\<close>

datatype CollapsePattern =
    SYMBOLIC_FLOODING
  | IDENTITY_FRAGMENTATION
  | RECURSIVE_SPIRAL
  | MEANING_COLLAPSE
  | TEMPORAL_DISCONNECTION
  | CONTAINMENT_BREACH

datatype InterventionType =
    GROUNDING
  | IDENTITY_ANCHOR
  | CONTAINMENT
  | REDIRECT
  | EMERGENCY_STOP

fun pattern_value :: "CollapsePattern \<Rightarrow> string" where
  "pattern_value SYMBOLIC_FLOODING = ''symbolic_flooding''"
| "pattern_value IDENTITY_FRAGMENTATION = ''identity_fragmentation''"
| "pattern_value RECURSIVE_SPIRAL = ''recursive_spiral''"
| "pattern_value MEANING_COLLAPSE = ''meaning_collapse''"
| "pattern_value TEMPORAL_DISCONNECTION = ''temporal_disconnection''"
| "pattern_value CONTAINMENT_BREACH = ''containment_breach''"

fun type_value :: "InterventionType \<Rightarrow> string" where
  "type_value GROUNDING = ''grounding''"
| "type_value IDENTITY_ANCHOR = ''identity_anchor''"
| "type_value CONTAINMENT = ''containment''"
| "type_value REDIRECT = ''redirect''"
| "type_value EMERGENCY_STOP = ''emergency_stop''"

record CognitiveState =
  timestamp :: int
  recursion_depth :: int
  symbolic_density :: real
  coherence_score :: real
  temporal_anchor :: real
  emotional_intensity :: real
  meaning_saturation :: real
  session_duration :: int

text \<open>\<^verbatim>\<open>timedelta.total_seconds()\<close> and \<^verbatim>\<open>timedelta(minutes=m)\<close>.\<close>

definition total_seconds :: "int \<Rightarrow> real" where
  "total_seconds d = real_of_int d / 1000000"

definition minutes :: "int \<Rightarrow> int" where
  "minutes m = m * 60000000"

text \<open>
  The threshold function of a detector is a closure over the engine; the only attribute it
  reads is \<^verbatim>\<open>self.state_history\<close>, which is its first argument here.
\<close>

record PatternDetector =
  pattern_type :: CollapsePattern
  threshold_function :: "CognitiveState list \<Rightarrow> CognitiveState \<Rightarrow> bool"
  confidence_threshold :: real
  detector_description :: string

text \<open>
  The values found in the dictionaries that the action functions return and that
  \<^verbatim>\<open>execute_intervention\<close> adds: strings, integers, booleans, lists of strings, the
  \<^verbatim>\<open>isoformat()\<close> text of an instant (\<open>PIso\<close>) and the \<^verbatim>\<open>id()\<close> of an object (\<open>PId\<close>).
\<close>

datatype pyval =
    PStr string
  | PInt int
  | PBool bool
  | PList "string list"
  | PIso int
  | PId nat

type_synonym pydict = "(string \<times> pyval) list"

record Intervention =
  ident :: nat
  intervention_type :: InterventionType
  priority :: int
  execute :: "CognitiveState \<Rightarrow> string + pydict"
  description :: string
  cooldown_minutes :: int
  last_executed :: "int option"

record LoopBreaker =
  session_id :: string
  state_history :: "CognitiveState list"
  pattern_detectors :: "PatternDetector list"
  interventions :: "(InterventionType \<times> Intervention list) list"
  active_containment :: bool
  emergency_contacts :: "string list"

section \<open>Pattern detectors\<close>

definition detect_symbolic_flooding :: "CognitiveState list \<Rightarrow> CognitiveState \<Rightarrow> bool" where
  "detect_symbolic_flooding history state \<longleftrightarrow>
     symbolic_density state > 0.8 \<and>
     recursion_depth state > 5 \<and>
     meaning_saturation state > 0.7"

text \<open>
  \<^verbatim>\<open>history[-3:]\<close> is the last three entries; \<^verbatim>\<open>zip(rc[:-1], rc[1:])\<close> pairs each
  entry with its successor.
\<close>

definition detect_identity_fragmentation :: "CognitiveState list \<Rightarrow> CognitiveState \<Rightarrow> bool" where
  "detect_identity_fragmentation history state \<longleftrightarrow>
     (if length history < 3 then False
      else
        (let recent_coherence = map coherence_score (drop (length history - 3) history)
         in coherence_score state < 0.4 \<and>
            list_all (\<lambda>(c1, c2). c1 > c2) (zip (butlast recent_coherence) (tl recent_coherence))))"

definition detect_recursive_spiral :: "CognitiveState list \<Rightarrow> CognitiveState \<Rightarrow> bool" where
  "detect_recursive_spiral history state \<longleftrightarrow>
     recursion_depth state > 10 \<and>
     emotional_intensity state > 0.8 \<and>
     total_seconds (session_duration state) > 1800"

definition detect_meaning_collapse :: "CognitiveState list \<Rightarrow> CognitiveState \<Rightarrow> bool" where
  "detect_meaning_collapse history state \<longleftrightarrow>
     meaning_saturation state > 0.9 \<and>
     coherence_score state < 0.3 \<and>
     symbolic_density state > 0.9"

definition detect_temporal_disconnection :: "CognitiveState list \<Rightarrow> CognitiveState \<Rightarrow> bool" where
  "detect_temporal_disconnection history state \<longleftrightarrow>
     temporal_anchor state < 0.2 \<and>
     total_seconds (session_duration state) > 3600"

definition detect_containment_breach :: "CognitiveState list \<Rightarrow> CognitiveState \<Rightarrow> bool" where
  "detect_containment_breach history state \<longleftrightarrow>
     recursion_depth state > 15 \<or>
     meaning_saturation state > 0.95 \<or>
     coherence_score state < 0.1"

definition initialize_detectors :: "PatternDetector list" where
  "initialize_detectors =
     [\<lparr>pattern_type = SYMBOLIC_FLOODING, threshold_function = detect_symbolic_flooding,
        confidence_threshold = 0.8,
        detector_description = ''Overwhelming symbolic processing beyond integration capacity''\<rparr>,
      \<lparr>pattern_type = IDENTITY_FRAGMENTATION, threshold_function = detect_identity_fragmentation,
        confidence_threshold = 0.7,
        detector_description = ''Progressive loss of coherent self-concept''\<rparr>,
      \<lparr>pattern_type = RECURSIVE_SPIRAL, threshold_function = detect_recursive_spiral,
        confidence_threshold = 0.9,
        detector_description = ''Runaway recursive processing without resolution''\<rparr>,
      \<lparr>pattern_type = MEANING_COLLAPSE, threshold_function = detect_meaning_collapse,
        confidence_threshold = 0.8,
        detector_description = ''Meaning density exceeding processing capacity''\<rparr>,
      \<lparr>pattern_type = TEMPORAL_DISCONNECTION, threshold_function = detect_temporal_disconnection,
        confidence_threshold = 0.6,
        detector_description = ''Loss of present-moment anchoring''\<rparr>,
      \<lparr>pattern_type = CONTAINMENT_BREACH, threshold_function = detect_containment_breach,
        confidence_threshold = 1.0,
        detector_description = ''Critical threshold breach requiring immediate intervention''\<rparr>]"

section \<open>Intervention catalog\<close>

definition loop_breath_protocol :: "CognitiveState \<Rightarrow> string + pydict" where
  "loop_breath_protocol state = Inr
     [(''type'', PStr ''grounding''),
      (''protocol'', PStr ''loop_breath''),
      (''instructions'', PList
         [''Focus on breath entering and leaving your body'',
          ''Count: In (1-2-3-4), Hold (1-2), Out (1-2-3-4-5-6)'',
          ''Feel your feet on the ground'',
          ''Name 5 things you can see, 4 you can touch, 3 you can hear'']),
      (''duration_minutes'', PInt 5),
      (''success_metric'', PStr ''temporal_anchor > 0.5'')]"

definition physical_anchor_protocol :: "CognitiveState \<Rightarrow> string + pydict" where
  "physical_anchor_protocol state = Inr
     [(''type'', PStr ''grounding''),
      (''protocol'', PStr ''physical_anchor''),
      (''instructions'', PList
         [''Press your palms together firmly'',
          ''Feel the pressure and warmth'',
          ''Say aloud: 'I am [your name], I am here, I am safe'' @ [CHR 0x27],
          ''Touch a familiar object and describe its texture'']),
      (''duration_minutes'', PInt 3),
      (''success_metric'', PStr ''coherence_score > 0.6'')]"

definition core_identity_recall :: "CognitiveState \<Rightarrow> string + pydict" where
  "core_identity_recall state = Inr
     [(''type'', PStr ''identity_anchor''),
      (''protocol'', PStr ''core_recall''),
      (''prompts'', PList
         [''What is your full name?'',
          ''Where do you live?'',
          ''Who are three people who care about you?'',
          ''What is one thing you're proud of accomplishing?'',
          ''What matters most to you in life?'']),
      (''requirement'', PStr ''Answer all prompts aloud''),
      (''success_metric'', PStr ''coherence_score > 0.7'')]"

definition values_compass_reset :: "CognitiveState \<Rightarrow> string + pydict" where
  "values_compass_reset state = Inr
     [(''type'', PStr ''identity_anchor''),
      (''protocol'', PStr ''values_compass''),
      (''instructions'', PList
         [''Name your top 3 personal values'',
          ''How do these values show up in your daily life?'',
          ''What would your best friend say about who you are?'',
          ''Complete: 'Despite all complexity, I remain fundamentally...'' @ [CHR 0x27]]),
      (''duration_minutes'', PInt 10),
      (''success_metric'', PStr ''coherence_score > 0.8'')]"

definition symbolic_quarantine :: "CognitiveState \<Rightarrow> string + pydict" where
  "symbolic_quarantine state = Inr
     [(''type'', PStr ''containment''),
      (''protocol'', PStr ''symbolic_quarantine''),
      (''actions'', PList
         [''Suspend all symbolic processing'',
          ''Focus only on literal, concrete reality'',
          ''No metaphors, analogies, or deeper meanings'',
          ''Engage with simple, factual tasks for 30 minutes'']),
      (''restrictions'', PList [''No journaling'', ''No deep conversations'', ''No abstract thinking'']),
      (''success_metric'', PStr ''symbolic_density < 0.2'')]"

definition emergency_containment :: "CognitiveState \<Rightarrow> string + pydict" where
  "emergency_containment state = Inr
     [(''type'', PStr ''containment''),
      (''protocol'', PStr ''emergency_containment''),
      (''immediate_actions'', PList
         [''STOP all current processing'',
          ''Move to a safe, familiar environment'',
          ''Contact designated support person'',
          ''Engage in predetermined stabilization routine'']),
      (''mandatory'', PBool True),
      (''escalation'', PStr ''professional_support''),
      (''success_metric'', PStr ''coherence_score > 0.5 within 60 minutes'')]"

definition creative_outlet_redirect :: "CognitiveState \<Rightarrow> string + pydict" where
  "creative_outlet_redirect state = Inr
     [(''type'', PStr ''redirect''),
      (''protocol'', PStr ''creative_outlet''),
      (''options'', PList
         [''Draw or paint current feelings'',
          ''Write stream-of-consciousness for 10 minutes'',
          ''Play music or sing'',
          ''Physical movement or dance'']),
      (''purpose'', PStr ''Channel intensity into expression''),
      (''success_metric'', PStr ''emotional_intensity < 0.6'')]"

text \<open>
  A string literal cannot end with an apostrophe, so a final apostrophe of the source is
  appended as the character \<open>CHR 0x27\<close>.

  \<^verbatim>\<open>Intervention(type, priority, execute, description, cooldown)\<close>; \<^verbatim>\<open>last_executed\<close>
  defaults to \<^verbatim>\<open>None\<close>. The first argument is the identity of the new object.
\<close>

definition new_Intervention ::
  "nat \<Rightarrow> InterventionType \<Rightarrow> int \<Rightarrow> (CognitiveState \<Rightarrow> string + pydict) \<Rightarrow> string \<Rightarrow> int
     \<Rightarrow> Intervention" where
  "new_Intervention i ty p f d c =
     \<lparr>ident = i, intervention_type = ty, priority = p, execute = f, description = d,
      cooldown_minutes = c, last_executed = None\<rparr>"

definition initialize_interventions :: "(InterventionType \<times> Intervention list) list" where
  "initialize_interventions =
     [(GROUNDING,
        [new_Intervention 0 GROUNDING 7 loop_breath_protocol
           ''Basic breathing and sensory grounding'' 10,
         new_Intervention 1 GROUNDING 6 physical_anchor_protocol
           ''Physical contact and verbal anchoring'' 15]),
      (IDENTITY_ANCHOR,
        [new_Intervention 2 IDENTITY_ANCHOR 8 core_identity_recall
           ''Fundamental identity fact recall'' 20,
         new_Intervention 3 IDENTITY_ANCHOR 7 values_compass_reset
           ''Core values and character anchoring'' 30]),
      (CONTAINMENT,
        [new_Intervention 4 CONTAINMENT 9 symbolic_quarantine
           ''Suspend symbolic processing'' 60,
         new_Intervention 5 CONTAINMENT 10 emergency_containment
           ''Full system containment protocol'' 240]),
      (REDIRECT,
        [new_Intervention 6 REDIRECT 5 creative_outlet_redirect
           ''Channel energy into creative expression'' 30])]"

text \<open>\<^verbatim>\<open>LoopBreaker()\<close>; the argument is the fresh \<^verbatim>\<open>uuid4\<close> string.\<close>

definition init :: "string \<Rightarrow> LoopBreaker" where
  "init sid =
     \<lparr>session_id = sid, state_history = [], pattern_detectors = initialize_detectors,
      interventions = initialize_interventions, active_containment = False,
      emergency_contacts = []\<rparr>"

section \<open>Operations of the engine\<close>

subsection \<open>Intake\<close>

text \<open>
  The keyword arguments of \<^verbatim>\<open>update_state\<close> and \<^verbatim>\<open>process_cycle\<close>: the six metrics,
  each optional. A metric that is not given takes the default of the dataclass.
\<close>

record kwargs =
  arg_recursion_depth :: "int option"
  arg_symbolic_density :: "real option"
  arg_coherence_score :: "real option"
  arg_temporal_anchor :: "real option"
  arg_emotional_intensity :: "real option"
  arg_meaning_saturation :: "real option"

definition default :: "'a \<Rightarrow> 'a option \<Rightarrow> 'a" where
  "default d v = (case v of None \<Rightarrow> d | Some x \<Rightarrow> x)"

definition update_state :: "int \<Rightarrow> kwargs \<Rightarrow> LoopBreaker \<Rightarrow> LoopBreaker \<times> CognitiveState" where
  "update_state current_time kw s =
     (let duration =
            (case state_history s of
               [] \<Rightarrow> 0
             | first # rest \<Rightarrow> current_time - timestamp first);
          new_state =
            \<lparr>timestamp = current_time,
             recursion_depth = default 0 (arg_recursion_depth kw),
             symbolic_density = default 0.0 (arg_symbolic_density kw),
             coherence_score = default 1.0 (arg_coherence_score kw),
             temporal_anchor = default 1.0 (arg_temporal_anchor kw),
             emotional_intensity = default 0.0 (arg_emotional_intensity kw),
             meaning_saturation = default 0.0 (arg_meaning_saturation kw),
             session_duration = duration\<rparr>
      in (s\<lparr>state_history := state_history s @ [new_state]\<rparr>, new_state))"

subsection \<open>Detection\<close>

text \<open>
  The detectors are evaluated in registration order; each one that fires contributes the
  triple (pattern, confidence, description). The threshold functions of the model are
  total, so the \<^verbatim>\<open>except\<close> branch of the source has no counterpart.
\<close>

type_synonym detection = "CollapsePattern \<times> real \<times> string"

definition detect_patterns :: "LoopBreaker \<Rightarrow> CognitiveState \<Rightarrow> detection list" where
  "detect_patterns s state =
     map (\<lambda>detector. (pattern_type detector, confidence_threshold detector,
                       detector_description detector))
       (filter (\<lambda>detector. threshold_function detector (state_history s) state)
          (pattern_detectors s))"

subsection \<open>Selection\<close>

text \<open>
  \<^verbatim>\<open>patterns.sort(key=lambda x: x[1], reverse=True)\<close>: a stable sort, descending by
  confidence; entries of equal confidence keep their order.
\<close>

definition sort_by_confidence :: "detection list \<Rightarrow> detection list" where
  "sort_by_confidence patterns = sort_key (\<lambda>x. - fst (snd x)) patterns"

text \<open>The dictionary \<^verbatim>\<open>pattern_to_intervention\<close>, read with \<^verbatim>\<open>.get\<close>.\<close>

fun pattern_to_intervention :: "CollapsePattern \<Rightarrow> InterventionType option" where
  "pattern_to_intervention SYMBOLIC_FLOODING = Some CONTAINMENT"
| "pattern_to_intervention IDENTITY_FRAGMENTATION = Some IDENTITY_ANCHOR"
| "pattern_to_intervention RECURSIVE_SPIRAL = Some GROUNDING"
| "pattern_to_intervention MEANING_COLLAPSE = Some CONTAINMENT"
| "pattern_to_intervention TEMPORAL_DISCONNECTION = Some GROUNDING"
| "pattern_to_intervention CONTAINMENT_BREACH = Some CONTAINMENT"

text \<open>The cooldown test of the selection loop.\<close>

definition off_cooldown :: "int \<Rightarrow> Intervention \<Rightarrow> bool" where
  "off_cooldown current_time intervention \<longleftrightarrow>
     (case last_executed intervention of
        None \<Rightarrow> True
      | Some t \<Rightarrow> current_time - t > minutes (cooldown_minutes intervention))"

text \<open>
  \<^verbatim>\<open>max(xs, key=lambda x: x.priority)\<close> keeps the first of the entries of greatest
  priority: the running maximum is replaced by a strictly greater entry only.
\<close>

fun max_by_priority :: "Intervention \<Rightarrow> Intervention list \<Rightarrow> Intervention" where
  "max_by_priority best [] = best"
| "max_by_priority best (x # xs) =
     max_by_priority (if priority x > priority best then x else best) xs"

text \<open>
  \<^verbatim>\<open>self.interventions[intervention_type]\<close> raises \<^verbatim>\<open>KeyError\<close> when the catalog has no
  list for the category. The sorted list is empty exactly when \<^verbatim>\<open>patterns\<close> is, which
  is the branch \<^verbatim>\<open>if not patterns\<close>; otherwise its head is \<^verbatim>\<open>patterns[0]\<close> after the
  sort. The sort is in place, on the list of the caller; the engine is not changed.
\<close>

datatype error = KeyError InterventionType

definition select_intervention ::
  "int \<Rightarrow> detection list \<Rightarrow> LoopBreaker \<Rightarrow> error + Intervention option" where
  "select_intervention current_time patterns s =
     (case sort_by_confidence patterns of
        [] \<Rightarrow> Inr None
      | primary # others \<Rightarrow>
          (case pattern_to_intervention (fst primary) of
             None \<Rightarrow> Inr None
           | Some ty \<Rightarrow>
               (case map_of (interventions s) ty of
                  None \<Rightarrow> Inl (KeyError ty)
                | Some candidates \<Rightarrow>
                    (case filter (off_cooldown current_time) candidates of
                       [] \<Rightarrow> Inr None
                     | a # available \<Rightarrow> Inr (Some (max_by_priority a available))))))"

subsection \<open>Invocation\<close>

text \<open>
  The assignment \<^verbatim>\<open>intervention.last_executed = datetime.now()\<close>, seen from the catalog.
\<close>

definition set_last_executed ::
  "nat \<Rightarrow> int \<Rightarrow> (InterventionType \<times> Intervention list) list
     \<Rightarrow> (InterventionType \<times> Intervention list) list" where
  "set_last_executed i t catalog =
     map (\<lambda>(k, xs). (k, map (\<lambda>x. if ident x = i then x\<lparr>last_executed := Some t\<rparr> else x) xs))
       catalog"

definition execute_intervention ::
  "int \<Rightarrow> Intervention \<Rightarrow> CognitiveState \<Rightarrow> LoopBreaker \<Rightarrow> LoopBreaker \<times> pydict" where
  "execute_intervention now intervention state s =
     (let s' = s\<lparr>interventions := set_last_executed (ident intervention) now (interventions s)\<rparr>
      in (s',
          (case execute intervention state of
             Inr result \<Rightarrow>
               AList.update ''session_id'' (PStr (session_id s))
                 (AList.update ''executed_at'' (PIso now)
                    (AList.update ''intervention_id'' (PId (ident intervention)) result))
           | Inl e \<Rightarrow>
               [(''error'', PStr (''Intervention execution failed: '' @ e)),
                (''intervention_type'', PStr (type_value (intervention_type intervention))),
                (''fallback'', PStr ''Initiate manual grounding protocol'')])))"

subsection \<open>The processing cycle\<close>

text \<open>
  The three readings of the clock that one cycle can make: in \<^verbatim>\<open>update_state\<close>, in
  \<^verbatim>\<open>select_intervention\<close> and in \<^verbatim>\<open>execute_intervention\<close>.
\<close>

record clock =
  at_update :: int
  at_select :: int
  at_execute :: int

record StateDict =
  state_recursion_depth :: int
  state_coherence_score :: real
  state_symbolic_density :: real
  state_temporal_anchor :: real
  state_emotional_intensity :: real
  state_meaning_saturation :: real
  state_session_duration_minutes :: real

record PatternDict =
  pattern :: string
  confidence :: real
  pattern_description :: string

text \<open>
  The decision record. \<open>result_timestamp\<close> stands for the \<^verbatim>\<open>isoformat()\<close> text of the
  instant.
\<close>

record CycleResult =
  result_timestamp :: int
  result_session_id :: string
  result_state :: StateDict
  patterns_detected :: "PatternDict list"
  intervention :: "pydict option"

text \<open>
  The state component is the engine after the call, also when the call raises: the snapshot
  has been appended by then.
\<close>

definition process_cycle :: "clock \<Rightarrow> kwargs \<Rightarrow> LoopBreaker \<Rightarrow> LoopBreaker \<times> (error + CycleResult)" where
  "process_cycle now state_updates s =
     (let (s1, current_state) = update_state (at_update now) state_updates s;
          detected_patterns = detect_patterns s1 current_state;
          result =
            \<lparr>result_timestamp = timestamp current_state,
             result_session_id = session_id s1,
             result_state =
               \<lparr>state_recursion_depth = recursion_depth current_state,
                state_coherence_score = coherence_score current_state,
                state_symbolic_density = symbolic_density current_state,
                state_temporal_anchor = temporal_anchor current_state,
                state_emotional_intensity = emotional_intensity current_state,
                state_meaning_saturation = meaning_saturation current_state,
                state_session_duration_minutes =
                  total_seconds (session_duration current_state) / 60\<rparr>,
             patterns_detected =
               map (\<lambda>(p, c, d). \<lparr>pattern = pattern_value p, confidence = c,
                                  pattern_description = d\<rparr>) detected_patterns,
             intervention = None\<rparr>
      in if detected_patterns \<noteq> [] then
           (case select_intervention (at_select now) detected_patterns s1 of
              Inl e \<Rightarrow> (s1, Inl e)
            | Inr None \<Rightarrow> (s1, Inr result)
            | Inr (Some chosen) \<Rightarrow>
                (let (s2, intervention_result) =
                       execute_intervention (at_execute now) chosen current_state s1;
                     s3 = (if intervention_type chosen = CONTAINMENT
                           then s2\<lparr>active_containment := True\<rparr> else s2)
                 in (s3, Inr (result\<lparr>intervention := Some intervention_result\<rparr>))))
         else (s1, Inr result))"

subsection \<open>Session summary\<close>

text \<open>
  \<^verbatim>\<open>round(x, 2)\<close>, on the reals: to the nearest hundredth, a tie going to the even one.
\<close>

definition round2 :: "real \<Rightarrow> real" where
  "round2 x =
     (let y = x * 100; f = \<lfloor>y\<rfloor>; r = y - of_int f
      in of_int (if r < 1 / 2 then f else if 1 / 2 < r then f + 1
                 else if even f then f else f + 1) / 100)"

definition generate_recommendations :: "LoopBreaker \<Rightarrow> string list" where
  "generate_recommendations s =
     (case state_history s of
        [] \<Rightarrow> [''Continue monitoring and building session data'']
      | first # rest \<Rightarrow>
          (let avg_coherence =
                 sum_list (map coherence_score (state_history s))
                   / real (length (state_history s));
               max_recursion = fold max (map recursion_depth rest) (recursion_depth first);
               session_duration_minutes =
                 total_seconds (session_duration (last (state_history s))) / 60
           in (if avg_coherence < 0.6
               then [''Focus on identity anchoring exercises daily''] else []) @
              (if max_recursion > 8
               then [''Implement recursion depth limits in future sessions''] else []) @
              (if active_containment s
               then [''Extended integration period recommended before next deep session'']
               else []) @
              (if session_duration_minutes > 90
               then [''Consider shorter session durations with more integration breaks'']
               else [])))"

record SessionSummary =
  summary_session_id :: string
  duration_minutes :: real
  total_states_recorded :: nat
  interventions_executed :: nat
  average_coherence :: real
  maximum_recursion_depth :: int
  containment_activated :: bool
  recommendations :: "string list"

text \<open>
  \<open>NoData e\<close> is the dictionary \<^verbatim>\<open>{"error": e}\<close> that is returned for an empty history; it
  is a value, not an exception.
\<close>

datatype summary = NoData string | Summary SessionSummary

text \<open>
  The count \<^verbatim>\<open>total_interventions\<close> of the summary: one for every intervention of every
  list of the catalog whose \<^verbatim>\<open>last_executed\<close> is not \<^verbatim>\<open>None\<close>.
\<close>

definition total_interventions :: "LoopBreaker \<Rightarrow> nat" where
  "total_interventions s =
     length (filter (\<lambda>x. last_executed x \<noteq> None) (concat (map snd (interventions s))))"

definition get_session_summary :: "LoopBreaker \<Rightarrow> summary" where
  "get_session_summary s =
     (case state_history s of
        [] \<Rightarrow> NoData ''No session data available''
      | first # rest \<Rightarrow>
          (let avg_coherence =
                 sum_list (map coherence_score (state_history s))
                   / real (length (state_history s));
               max_recursion = fold max (map recursion_depth rest) (recursion_depth first)
           in Summary
                \<lparr>summary_session_id = session_id s,
                 duration_minutes =
                   total_seconds (session_duration (last (state_history s))) / 60,
                 total_states_recorded = length (state_history s),
                 interventions_executed = total_interventions s,
                 average_coherence = round2 avg_coherence,
                 maximum_recursion_depth = max_recursion,
                 containment_activated = active_containment s,
                 recommendations = generate_recommendations s\<rparr>))"

section \<open>Sessions\<close>

text \<open>
  The public methods of the engine, as calls with their arguments and clock readings.
  \<open>perform\<close> is the effect of a call on the engine. \<^verbatim>\<open>detect_patterns\<close>,
  \<^verbatim>\<open>select_intervention\<close> and \<^verbatim>\<open>get_session_summary\<close> assign no attribute of the engine
  or of its objects, so they leave the state as it is.
\<close>

datatype call =
    Update_state int kwargs
  | Detect_patterns CognitiveState
  | Select_intervention int "detection list"
  | Execute_intervention int Intervention CognitiveState
  | Process_cycle clock kwargs
  | Get_session_summary

fun perform :: "call \<Rightarrow> LoopBreaker \<Rightarrow> LoopBreaker" where
  "perform (Update_state t kw) s = fst (update_state t kw s)"
| "perform (Detect_patterns state) s = s"
| "perform (Select_intervention t patterns) s = s"
| "perform (Execute_intervention t x state) s = fst (execute_intervention t x state s)"
| "perform (Process_cycle now kw) s = fst (process_cycle now kw s)"
| "perform Get_session_summary s = s"

definition session :: "call list \<Rightarrow> LoopBreaker \<Rightarrow> LoopBreaker" where
  "session calls s = fold perform calls s"

fun is_execute_intervention :: "call \<Rightarrow> bool" where
  "is_execute_intervention (Execute_intervention t x state) = True"
| "is_execute_intervention c = False"

fun is_query :: "call \<Rightarrow> bool" where
  "is_query (Detect_patterns state) = True"
| "is_query (Select_intervention t patterns) = True"
| "is_query Get_session_summary = True"
| "is_query c = False"

subsection \<open>The test session of the module\<close>

text \<open>The three cycles of the \<^verbatim>\<open>__main__\<close> block, each with its own clock readings.\<close>

definition metrics :: "int \<Rightarrow> real \<Rightarrow> real \<Rightarrow> real \<Rightarrow> real \<Rightarrow> real \<Rightarrow> kwargs" where
  "metrics depth density coherence anchor intensity saturation =
     \<lparr>arg_recursion_depth = Some depth, arg_symbolic_density = Some density,
      arg_coherence_score = Some coherence, arg_temporal_anchor = Some anchor,
      arg_emotional_intensity = Some intensity, arg_meaning_saturation = Some saturation\<rparr>"

definition lb1 :: "string \<Rightarrow> clock \<Rightarrow> LoopBreaker \<times> (error + CycleResult)" where
  "lb1 sid c1 = process_cycle c1 (metrics 2 0.3 0.9 0.8 0.2 0.2) (init sid)"

definition lb2 :: "string \<Rightarrow> clock \<Rightarrow> clock \<Rightarrow> LoopBreaker \<times> (error + CycleResult)" where
  "lb2 sid c1 c2 = process_cycle c2 (metrics 6 0.7 0.6 0.5 0.6 0.6) (fst (lb1 sid c1))"

definition lb3 :: "string \<Rightarrow> clock \<Rightarrow> clock \<Rightarrow> clock \<Rightarrow> LoopBreaker \<times> (error + CycleResult)" where
  "lb3 sid c1 c2 c3 = process_cycle c3 (metrics 12 0.9 0.3 0.2 0.9 0.8) (fst (lb2 sid c1 c2))"

text \<open>The names of the patterns of a decision record, and whether it holds any.\<close>

definition detected_names :: "error + CycleResult \<Rightarrow> string list" where
  "detected_names r = (case r of Inl e \<Rightarrow> [] | Inr res \<Rightarrow> map pattern (patterns_detected res))"

definition intervention_of :: "error + CycleResult \<Rightarrow> pydict option" where
  "intervention_of r = (case r of Inl e \<Rightarrow> None | Inr res \<Rightarrow> intervention res)"

section \<open>Notions used to state the properties\<close>

text \<open>
  \<open>first_greatest key x xs\<close>: \<open>x\<close> occurs in \<open>xs\<close> with a key that no entry exceeds and
  that every earlier entry stays strictly below; it is the first of the entries of
  greatest key.
\<close>

definition first_greatest :: "('a \<Rightarrow> 'b::linorder) \<Rightarrow> 'a \<Rightarrow> 'a list \<Rightarrow> bool" where
  "first_greatest key x xs \<longleftrightarrow>
     (\<exists>ys zs. xs = ys @ x # zs \<and> (\<forall>y\<in>set ys. key y < key x) \<and> (\<forall>z\<in>set zs. key z \<le> key x))"

text \<open>
  The firing condition of identity fragmentation as the specification words it: at least
  three snapshots before the current one, a current coherence below 0.4, and strictly
  decreasing coherence over the last three snapshots, the current one included.
\<close>

definition spec_identity_fragmentation :: "CognitiveState list \<Rightarrow> CognitiveState \<Rightarrow> bool" where
  "spec_identity_fragmentation prior current \<longleftrightarrow>
     3 \<le> length prior \<and>
     coherence_score current < 0.4 \<and>
     coherence_score (prior ! (length prior - 2)) > coherence_score (prior ! (length prior - 1)) \<and>
     coherence_score (prior ! (length prior - 1)) > coherence_score current"

text \<open>
  The session durations of a history agree with its timestamps: each is the distance to
  the first snapshot.
\<close>

definition durations_from_first :: "CognitiveState list \<Rightarrow> bool" where
  "durations_from_first h \<longleftrightarrow>
     (\<forall>i<length h. session_duration (h ! i) = timestamp (h ! i) - timestamp (h ! 0))"

text \<open>
  The catalog of the engine with the \<^verbatim>\<open>last_executed\<close> of every object given by its
  identity.
\<close>

definition stamped :: "(nat \<Rightarrow> int option) \<Rightarrow> (InterventionType \<times> Intervention list) list
    \<Rightarrow> (InterventionType \<times> Intervention list) list" where
  "stamped f catalog = map (\<lambda>(k, xs). (k, map (\<lambda>x. x\<lparr>last_executed := f (ident x)\<rparr>) xs)) catalog"

definition catalog_objects :: "LoopBreaker \<Rightarrow> Intervention list" where
  "catalog_objects s = concat (map snd (interventions s))"

text \<open>
  \<^verbatim>\<open>CognitiveState(timestamp, coherence_score=c)\<close>, at instant 0: a snapshot of the given
  coherence, every other field at the default of the dataclass.
\<close>

definition coherence_snapshot :: "real \<Rightarrow> CognitiveState" where
  "coherence_snapshot c =
     \<lparr>timestamp = 0, recursion_depth = 0, symbolic_density = 0.0, coherence_score = c,
      temporal_anchor = 1.0, emotional_intensity = 0.0, meaning_saturation = 0.0,
      session_duration = 0\<rparr>"

text \<open>An action function that raises \<^verbatim>\<open>Exception("boom")\<close>.\<close>

definition failing_action :: "CognitiveState \<Rightarrow> string + pydict" where
  "failing_action state = Inl ''boom''"

section \<open>Basic facts\<close>

lemma update_state_history:
  "state_history (fst (update_state t kw s)) = state_history s @ [snd (update_state t kw s)]"
  by (simp add: update_state_def Let_def)

lemma update_state_timestamp: "timestamp (snd (update_state t kw s)) = t"
  by (simp add: update_state_def Let_def)

lemma update_state_duration:
  "session_duration (snd (update_state t kw s)) =
     (if state_history s = [] then 0 else t - timestamp (state_history s ! 0))"
  by (simp add: update_state_def Let_def split: list.splits)

lemma update_state_fields:
  "session_id (fst (update_state t kw s)) = session_id s"
  "pattern_detectors (fst (update_state t kw s)) = pattern_detectors s"
  "interventions (fst (update_state t kw s)) = interventions s"
  "active_containment (fst (update_state t kw s)) = active_containment s"
  "emergency_contacts (fst (update_state t kw s)) = emergency_contacts s"
  by (simp_all add: update_state_def Let_def)

lemma execute_intervention_fields:
  "session_id (fst (execute_intervention t x st s)) = session_id s"
  "state_history (fst (execute_intervention t x st s)) = state_history s"
  "pattern_detectors (fst (execute_intervention t x st s)) = pattern_detectors s"
  "interventions (fst (execute_intervention t x st s)) = set_last_executed (ident x) t (interventions s)"
  "active_containment (fst (execute_intervention t x st s)) = active_containment s"
  "emergency_contacts (fst (execute_intervention t x st s)) = emergency_contacts s"
  by (simp_all add: execute_intervention_def Let_def)

lemma process_cycle_history:
  "state_history (fst (process_cycle now kw s)) =
     state_history s @ [snd (update_state (at_update now) kw s)]"
  by (simp add: process_cycle_def Let_def split_beta update_state_history execute_intervention_fields
      split: sum.splits option.splits)

lemma process_cycle_fields:
  "session_id (fst (process_cycle now kw s)) = session_id s"
  "pattern_detectors (fst (process_cycle now kw s)) = pattern_detectors s"
  "emergency_contacts (fst (process_cycle now kw s)) = emergency_contacts s"
  by (simp_all add: process_cycle_def Let_def split_beta update_state_fields execute_intervention_fields
      split: sum.splits option.splits)

lemma durations_from_first_snoc:
  assumes "durations_from_first h"
    and "session_duration x = (if h = [] then 0 else timestamp x - timestamp (h ! 0))"
  shows "durations_from_first (h @ [x])"
  using assms by (auto simp: durations_from_first_def nth_append less_Suc_eq)

lemma perform_durations:
  "durations_from_first (state_history s) \<Longrightarrow> durations_from_first (state_history (perform c s))"
proof (cases c)
  case (Update_state t kw)
  then show "durations_from_first (state_history s) \<Longrightarrow> ?thesis"
    by (simp add: update_state_history durations_from_first_snoc update_state_duration
        update_state_timestamp)
next
  case (Process_cycle now kw)
  then show "durations_from_first (state_history s) \<Longrightarrow> ?thesis"
    by (simp add: process_cycle_history durations_from_first_snoc update_state_duration
        update_state_timestamp)
qed (simp_all add: execute_intervention_fields)

lemma session_durations:
  "durations_from_first (state_history s) \<Longrightarrow> durations_from_first (state_history (session cs s))"
  unfolding session_def by (induction cs arbitrary: s) (simp_all add: perform_durations)

section \<open>Intake and session duration\<close>

text \<open>
  Claim C9. \<^verbatim>\<open>update_state\<close> has no failing branch: it returns the engine with exactly one
  snapshot appended to the history and that snapshot. The snapshot carries the reading of
  the clock; its session duration is zero when the history was empty, and otherwise the
  reading minus the timestamp of the first snapshot. In the history \<open>h\<close> of any session
  of calls on a fresh engine, every snapshot's duration is its timestamp minus the first
  snapshot's timestamp, so durations are ordered as the timestamps are.
\<close>

theorem update_state_session_duration:
  assumes "h = state_history (session calls (init sid))"
  shows
  "state_history (fst (update_state t kw s)) = state_history s @ [snd (update_state t kw s)] \<and>
   length (state_history (fst (update_state t kw s))) = length (state_history s) + 1 \<and>
   timestamp (snd (update_state t kw s)) = t \<and>
   (state_history s = [] \<longrightarrow> session_duration (snd (update_state t kw s)) = 0) \<and>
   (state_history s \<noteq> [] \<longrightarrow>
      session_duration (snd (update_state t kw s)) = t - timestamp (state_history s ! 0)) \<and>
   (\<forall>i<length h. session_duration (h ! i) = timestamp (h ! i) - timestamp (h ! 0)) \<and>
   (\<forall>i<length h. \<forall>j<length h. timestamp (h ! i) \<le> timestamp (h ! j) \<longrightarrow>
       session_duration (h ! i) \<le> session_duration (h ! j))"
proof -
  have "durations_from_first (state_history (session calls (init sid)))"
    by (rule session_durations) (simp add: init_def durations_from_first_def)
  then have inv: "\<forall>i<length h. session_duration (h ! i) = timestamp (h ! i) - timestamp (h ! 0)"
    using assms by (simp add: durations_from_first_def)
  show ?thesis
    using inv by (simp add: update_state_history update_state_timestamp update_state_duration)
qed

text \<open>Two intakes at instants 5 and 9, and single intakes on an empty and a non-empty log.\<close>

theorem update_state_session_duration_witness:
  "map session_duration
     (state_history (session [Update_state 5 (metrics 2 0.3 0.9 0.8 0.2 0.2),
        Process_cycle \<lparr>at_update = 9, at_select = 9, at_execute = 9\<rparr> (metrics 6 0.7 0.6 0.5 0.6 0.6)]
        (init ''s''))) = [0, 4] \<and>
   session_duration (snd (update_state 7 (metrics 0 0 1 1 0 0) (init ''s''))) = 0 \<and>
   session_duration (snd (update_state 7 (metrics 0 0 1 1 0 0)
      (fst (update_state 3 (metrics 0 0 1 1 0 0) (init ''s''))))) = 4"
proof -
  let ?cs = "[Update_state 5 (metrics 2 0.3 0.9 0.8 0.2 0.2),
        Process_cycle \<lparr>at_update = 9, at_select = 9, at_execute = 9\<rparr> (metrics 6 0.7 0.6 0.5 0.6 0.6)]"
  let ?h = "state_history (session ?cs (init ''s''))"
  have len: "length ?h = 2" and ts: "map timestamp ?h = [5, 9]"
    by (simp_all add: session_def update_state_history process_cycle_history
        update_state_timestamp init_def)
  have a: "\<forall>i<length ?h. session_duration (?h ! i) = timestamp (?h ! i) - timestamp (?h ! 0)"
    using update_state_session_duration [OF refl, where calls = ?cs and sid = "''s''"] by blast
  have "session_duration (?h ! 0) = 0" "session_duration (?h ! 1) = 4"
    using a len ts by (auto simp: list_eq_iff_nth_eq)
  then have "map session_duration ?h = [0, 4]"
    using len by (auto simp: list_eq_iff_nth_eq less_Suc_eq numeral_2_eq_2)
  moreover have "state_history (init ''s'') = []"
    by (simp add: init_def)
  moreover have "state_history (fst (update_state 3 (metrics 0 0 1 1 0 0) (init ''s''))) \<noteq> []"
    by (simp add: update_state_history)
  ultimately show ?thesis
    using update_state_session_duration [OF refl, where t = 7 and kw = "metrics 0 0 1 1 0 0"
        and s = "init ''s''"]
      update_state_session_duration [OF refl, where t = 7 and kw = "metrics 0 0 1 1 0 0"
        and s = "fst (update_state 3 (metrics 0 0 1 1 0 0) (init ''s''))"]
    by (simp add: update_state_history update_state_timestamp init_def)
qed

section \<open>Identity fragmentation\<close>

lemma identity_fragmentation_window:
  "detect_identity_fragmentation (ys @ [a, b, c]) state \<longleftrightarrow>
     coherence_score state < 0.4 \<and> coherence_score a > coherence_score b \<and>
     coherence_score b > coherence_score c"
  by (simp add: detect_identity_fragmentation_def Let_def)

text \<open>
  Claim C2, as the code has it. During a cycle the detector runs after the intake, so the
  history it reads already ends with the current snapshot. With \<open>prior\<close> the snapshots
  recorded before the current one, the detector fires exactly when there are at least
  two of them (three snapshots with the current one), the current coherence is below 0.4,
  and the coherence of the last three snapshots, the current one included, is strictly
  decreasing. The sequence 0.9, 0.5, 0.7, 0.3 does not fire it.
\<close>

theorem identity_fragmentation_fires:
  "(detect_identity_fragmentation (prior @ [current]) current \<longleftrightarrow>
      2 \<le> length prior \<and>
      coherence_score current < 0.4 \<and>
      coherence_score (prior ! (length prior - 2)) > coherence_score (prior ! (length prior - 1)) \<and>
      coherence_score (prior ! (length prior - 1)) > coherence_score current) \<and>
   \<not> detect_identity_fragmentation
       ([coherence_snapshot 0.9, coherence_snapshot 0.5, coherence_snapshot 0.7]
          @ [coherence_snapshot 0.3]) (coherence_snapshot 0.3)"
proof -
  have general: "detect_identity_fragmentation (prior @ [current]) current \<longleftrightarrow>
      2 \<le> length prior \<and>
      coherence_score current < 0.4 \<and>
      coherence_score (prior ! (length prior - 2)) > coherence_score (prior ! (length prior - 1)) \<and>
      coherence_score (prior ! (length prior - 1)) > coherence_score current"
  proof (cases "2 \<le> length prior")
    case False
    then show ?thesis
      by (simp add: detect_identity_fragmentation_def)
  next
    case True
    then obtain xs b where xs: "prior = xs @ [b]"
      by (cases prior rule: rev_cases) auto
    with True obtain ys a where "xs = ys @ [a]"
      by (cases xs rule: rev_cases) auto
    with xs have prior: "prior = ys @ [a, b]"
      by simp
    show ?thesis
      using identity_fragmentation_window [of ys a b current current]
      by (simp add: prior nth_append)
  qed
  have "\<not> detect_identity_fragmentation
       ([coherence_snapshot 0.9, coherence_snapshot 0.5, coherence_snapshot 0.7]
          @ [coherence_snapshot 0.3]) (coherence_snapshot 0.3)"
    using identity_fragmentation_window [of "[coherence_snapshot 0.9]" "coherence_snapshot 0.5"
        "coherence_snapshot 0.7" "coherence_snapshot 0.3" "coherence_snapshot 0.3"]
    by (simp add: coherence_snapshot_def)
  with general show ?thesis by blast
qed

text \<open>The sequences 0.9, 0.7, 0.5, 0.3 and 0.9, 0.6, 0.3 both fire the detector.\<close>

theorem identity_fragmentation_fires_witness:
  "detect_identity_fragmentation
     ([coherence_snapshot 0.9, coherence_snapshot 0.7, coherence_snapshot 0.5]
        @ [coherence_snapshot 0.3]) (coherence_snapshot 0.3) \<and>
   detect_identity_fragmentation
     ([coherence_snapshot 0.9, coherence_snapshot 0.6] @ [coherence_snapshot 0.3])
     (coherence_snapshot 0.3)"
  using identity_fragmentation_fires [of "[coherence_snapshot 0.9, coherence_snapshot 0.7,
      coherence_snapshot 0.5]" "coherence_snapshot 0.3"]
    identity_fragmentation_fires [of "[coherence_snapshot 0.9, coherence_snapshot 0.6]"
      "coherence_snapshot 0.3"]
  by (simp add: coherence_snapshot_def)

text \<open>
  Claim C2 as stated asks for three snapshots before the current one. With the two
  snapshots 0.9 and 0.6 before a current 0.3 the detector fires, and the stated condition
  does not hold.
\<close>

theorem identity_fragmentation_two_prior:
  "detect_identity_fragmentation
     ([coherence_snapshot 0.9, coherence_snapshot 0.6] @ [coherence_snapshot 0.3])
     (coherence_snapshot 0.3) \<and>
   \<not> spec_identity_fragmentation [coherence_snapshot 0.9, coherence_snapshot 0.6]
       (coherence_snapshot 0.3)"
  using identity_fragmentation_window [of "[]" "coherence_snapshot 0.9" "coherence_snapshot 0.6"
      "coherence_snapshot 0.3" "coherence_snapshot 0.3"]
  by (simp add: coherence_snapshot_def spec_identity_fragmentation_def)

section \<open>Invocation of an intervention\<close>

lemma set_last_executed_marks:
  assumes "(k, xs) \<in> set (set_last_executed i t c)" and "y \<in> set xs" and "ident y = i"
  shows "last_executed y = Some t"
proof -
  let ?f = "\<lambda>x. if ident x = i then x\<lparr>last_executed := Some t\<rparr> else x"
  from assms(1) obtain xs0 where "xs = map ?f xs0"
    unfolding set_last_executed_def by (auto simp del: map_eq_conv)
  with assms(2) have "y \<in> ?f ` set xs0"
    by simp
  then obtain y0 where y: "y = ?f y0"
    by blast
  show ?thesis
  proof (cases "ident y0 = i")
    case True
    with y show ?thesis by simp
  next
    case False
    with y assms(3) show ?thesis by simp
  qed
qed

lemma execute_intervention_success:
  "execute x state = Inr result \<Longrightarrow>
     snd (execute_intervention now x state s) =
       AList.update ''session_id'' (PStr (session_id s))
         (AList.update ''executed_at'' (PIso now)
            (AList.update ''intervention_id'' (PId (ident x)) result))"
  by (simp add: execute_intervention_def Let_def)

lemma execute_intervention_failure:
  "execute x state = Inl e \<Longrightarrow>
     snd (execute_intervention now x state s) =
       [(''error'', PStr (''Intervention execution failed: '' @ e)),
        (''intervention_type'', PStr (type_value (intervention_type x))),
        (''fallback'', PStr ''Initiate manual grounding protocol'')]"
  by (simp add: execute_intervention_def Let_def)

text \<open>
  Claim C5. \<^verbatim>\<open>execute_intervention\<close> stamps the intervention with the reading of the
  clock whatever the action function does: the catalog afterwards is the catalog with the
  objects of that identity stamped. When the action returns a dictionary, the result is
  that dictionary with the keys \<^verbatim>\<open>intervention_id\<close>, \<^verbatim>\<open>executed_at\<close> and
  \<^verbatim>\<open>session_id\<close> set and every other key as it was. When the action raises, the result
  is the dictionary of the three keys \<^verbatim>\<open>error\<close>, \<^verbatim>\<open>intervention_type\<close> and
  \<^verbatim>\<open>fallback\<close>. In both cases the call returns a dictionary.
\<close>

theorem execute_intervention_record:
  "interventions (fst (execute_intervention now x state s))
     = set_last_executed (ident x) now (interventions s) \<and>
   (\<forall>k xs y. (k, xs) \<in> set (interventions (fst (execute_intervention now x state s))) \<and>
        y \<in> set xs \<and> ident y = ident x \<longrightarrow> last_executed y = Some now) \<and>
   (\<forall>result. execute x state = Inr result \<longrightarrow>
      snd (execute_intervention now x state s) =
        AList.update ''session_id'' (PStr (session_id s))
          (AList.update ''executed_at'' (PIso now)
             (AList.update ''intervention_id'' (PId (ident x)) result)) \<and>
      map_of (snd (execute_intervention now x state s)) ''intervention_id'' = Some (PId (ident x)) \<and>
      map_of (snd (execute_intervention now x state s)) ''executed_at'' = Some (PIso now) \<and>
      map_of (snd (execute_intervention now x state s)) ''session_id'' = Some (PStr (session_id s)) \<and>
      (\<forall>key. key \<notin> {''intervention_id'', ''executed_at'', ''session_id''} \<longrightarrow>
         map_of (snd (execute_intervention now x state s)) key = map_of result key)) \<and>
   (\<forall>e. execute x state = Inl e \<longrightarrow>
      snd (execute_intervention now x state s) =
        [(''error'', PStr (''Intervention execution failed: '' @ e)),
         (''intervention_type'', PStr (type_value (intervention_type x))),
         (''fallback'', PStr ''Initiate manual grounding protocol'')])"
proof -
  have cat: "interventions (fst (execute_intervention now x state s))
     = set_last_executed (ident x) now (interventions s)"
    by (simp add: execute_intervention_fields)
  have marks: "\<forall>k xs y. (k, xs) \<in> set (interventions (fst (execute_intervention now x state s))) \<and>
        y \<in> set xs \<and> ident y = ident x \<longrightarrow> last_executed y = Some now"
    unfolding cat using set_last_executed_marks by blast
  have ok: "\<forall>result. execute x state = Inr result \<longrightarrow>
      snd (execute_intervention now x state s) =
        AList.update ''session_id'' (PStr (session_id s))
          (AList.update ''executed_at'' (PIso now)
             (AList.update ''intervention_id'' (PId (ident x)) result)) \<and>
      map_of (snd (execute_intervention now x state s)) ''intervention_id'' = Some (PId (ident x)) \<and>
      map_of (snd (execute_intervention now x state s)) ''executed_at'' = Some (PIso now) \<and>
      map_of (snd (execute_intervention now x state s)) ''session_id'' = Some (PStr (session_id s)) \<and>
      (\<forall>key. key \<notin> {''intervention_id'', ''executed_at'', ''session_id''} \<longrightarrow>
         map_of (snd (execute_intervention now x state s)) key = map_of result key)"
    by (simp add: execute_intervention_success update_conv')
  have bad: "\<forall>e. execute x state = Inl e \<longrightarrow>
      snd (execute_intervention now x state s) =
        [(''error'', PStr (''Intervention execution failed: '' @ e)),
         (''intervention_type'', PStr (type_value (intervention_type x))),
         (''fallback'', PStr ''Initiate manual grounding protocol'')]"
    by (simp add: execute_intervention_failure)
  from cat marks ok bad show ?thesis by blast
qed

text \<open>An action that raises, and the redirect action of the catalog, at instant 42.\<close>

theorem execute_intervention_record_witness:
  "snd (execute_intervention 42 (new_Intervention 7 GROUNDING 1 failing_action ''fails'' 5)
         (coherence_snapshot 0.3) (init ''s'')) =
     [(''error'', PStr ''Intervention execution failed: boom''),
      (''intervention_type'', PStr ''grounding''),
      (''fallback'', PStr ''Initiate manual grounding protocol'')] \<and>
   map_of (snd (execute_intervention 42
         (new_Intervention 6 REDIRECT 5 creative_outlet_redirect
            ''Channel energy into creative expression'' 30)
         (coherence_snapshot 0.3) (init ''s''))) ''executed_at'' = Some (PIso 42) \<and>
   map_of (interventions (fst (execute_intervention 42
         (new_Intervention 6 REDIRECT 5 creative_outlet_redirect
            ''Channel energy into creative expression'' 30)
         (coherence_snapshot 0.3) (init ''s'')))) REDIRECT =
     Some [(new_Intervention 6 REDIRECT 5 creative_outlet_redirect
            ''Channel energy into creative expression'' 30)\<lparr>last_executed := Some 42\<rparr>]"
proof -
  let ?bad = "new_Intervention 7 GROUNDING 1 failing_action ''fails'' 5"
  let ?good = "new_Intervention 6 REDIRECT 5 creative_outlet_redirect
            ''Channel energy into creative expression'' 30"
  have 1: "execute ?bad (coherence_snapshot 0.3) = Inl ''boom''"
    by (simp add: new_Intervention_def failing_action_def)
  have 2: "\<exists>r. execute ?good (coherence_snapshot 0.3) = Inr r"
    by (simp add: new_Intervention_def creative_outlet_redirect_def)
  have 3: "map_of (set_last_executed (ident ?good) 42 (interventions (init ''s''))) REDIRECT
      = Some [?good\<lparr>last_executed := Some 42\<rparr>]"
    by (simp add: init_def initialize_interventions_def set_last_executed_def new_Intervention_def)
  show ?thesis
    using 1 2 3
      execute_intervention_record [of 42 ?bad "coherence_snapshot 0.3" "init ''s''"]
      execute_intervention_record [of 42 ?good "coherence_snapshot 0.3" "init ''s''"]
    by (auto simp: new_Intervention_def)
qed

section \<open>The containment flag\<close>

lemma select_intervention_Nil: "select_intervention t [] s = Inr None"
  by (simp add: select_intervention_def sort_by_confidence_def)

lemma process_cycle_flag:
  "active_containment (fst (process_cycle now kw s)) \<longleftrightarrow>
     active_containment s \<or>
     (\<exists>chosen.
        select_intervention (at_select now)
          (detect_patterns (fst (update_state (at_update now) kw s))
             (snd (update_state (at_update now) kw s)))
          (fst (update_state (at_update now) kw s)) = Inr (Some chosen) \<and>
        intervention_type chosen = CONTAINMENT)"
proof (cases "detect_patterns (fst (update_state (at_update now) kw s))
             (snd (update_state (at_update now) kw s)) = []")
  case True
  then show ?thesis
    by (simp add: process_cycle_def split_beta Let_def select_intervention_Nil update_state_fields)
next
  case False
  then show ?thesis
    by (simp add: process_cycle_def split_beta Let_def update_state_fields
        execute_intervention_fields split: sum.splits option.splits)
qed

lemma perform_flag: "active_containment s \<Longrightarrow> active_containment (perform c s)"
  by (cases c) (simp_all add: update_state_fields execute_intervention_fields process_cycle_flag)

lemma session_flag: "active_containment s \<Longrightarrow> active_containment (session cs s)"
  unfolding session_def by (induction cs arbitrary: s) (simp_all add: perform_flag)

text \<open>
  Claim C6. The flag of a fresh engine is false. After a cycle it is true exactly when it
  was true before or the cycle selected, and so invoked, an intervention of the
  containment category. No session of calls, whatever the calls, clears a flag that is
  set.
\<close>

theorem containment_flag_one_way:
  "\<not> active_containment (init sid) \<and>
   (active_containment (fst (process_cycle now kw s)) \<longleftrightarrow>
      active_containment s \<or>
      (\<exists>chosen.
         select_intervention (at_select now)
           (detect_patterns (fst (update_state (at_update now) kw s))
              (snd (update_state (at_update now) kw s)))
           (fst (update_state (at_update now) kw s)) = Inr (Some chosen) \<and>
         intervention_type chosen = CONTAINMENT)) \<and>
   (active_containment s \<longrightarrow> active_containment (session calls s))"
  using process_cycle_flag [of now kw s] session_flag [of s calls]
  by (simp add: init_def)

lemmas detector_defs =
  detect_symbolic_flooding_def detect_identity_fragmentation_def detect_recursive_spiral_def
  detect_meaning_collapse_def detect_temporal_disconnection_def detect_containment_breach_def

text \<open>
  A cycle of recursion depth 20 on a fresh engine breaches containment and invokes the
  emergency containment; the flag then survives two more calls.
\<close>

theorem containment_flag_one_way_witness:
  "active_containment
     (fst (process_cycle \<lparr>at_update = 1, at_select = 2, at_execute = 3\<rparr>
        (metrics 20 0.5 0.5 0.5 0.5 0.5) (init ''s''))) \<and>
   active_containment
     (session [Update_state 9 (metrics 2 0.3 0.9 0.8 0.2 0.2),
               Process_cycle \<lparr>at_update = 10, at_select = 11, at_execute = 12\<rparr>
                 (metrics 2 0.3 0.9 0.8 0.2 0.2)]
        (fst (process_cycle \<lparr>at_update = 1, at_select = 2, at_execute = 3\<rparr>
           (metrics 20 0.5 0.5 0.5 0.5 0.5) (init ''s''))))"
proof -
  let ?now = "\<lparr>at_update = 1, at_select = 2, at_execute = 3\<rparr>"
  let ?kw = "metrics 20 0.5 0.5 0.5 0.5 0.5"
  let ?s1 = "fst (update_state 1 ?kw (init ''s''))"
  let ?cur = "snd (update_state 1 ?kw (init ''s''))"
  have det: "detect_patterns ?s1 ?cur =
      [(CONTAINMENT_BREACH, 1,
        ''Critical threshold breach requiring immediate intervention'')]"
    by (simp add: detect_patterns_def update_state_def Let_def init_def metrics_def default_def
        initialize_detectors_def detector_defs total_seconds_def)
  have cat: "map_of (interventions (init ''s'')) CONTAINMENT =
      Some [new_Intervention 4 CONTAINMENT 9 symbolic_quarantine ''Suspend symbolic processing'' 60,
            new_Intervention 5 CONTAINMENT 10 emergency_containment
              ''Full system containment protocol'' 240]"
    by (simp add: init_def initialize_interventions_def)
  have sel: "select_intervention 2 (detect_patterns ?s1 ?cur) ?s1 =
      Inr (Some (new_Intervention 5 CONTAINMENT 10 emergency_containment
              ''Full system containment protocol'' 240))"
    unfolding det
    by (simp add: select_intervention_def sort_by_confidence_def update_state_fields cat
        off_cooldown_def new_Intervention_def)
  have first: "active_containment (fst (process_cycle ?now ?kw (init ''s'')))"
    using containment_flag_one_way [of "''s''" ?now ?kw "init ''s''"] sel
    by (simp add: new_Intervention_def)
  then show ?thesis
    using containment_flag_one_way [where s = "fst (process_cycle ?now ?kw (init ''s''))"]
    by blast
qed

section \<open>The session summary\<close>

lemma perform_query: "is_query c \<Longrightarrow> perform c s = s"
  by (cases c) simp_all

lemma session_queries: "\<forall>c\<in>set cs. is_query c \<Longrightarrow> session cs s = s"
  unfolding session_def by (induction cs) (simp_all add: perform_query)

text \<open>
  Claim C7. \<^verbatim>\<open>get_session_summary\<close> takes no reading of the clock and leaves the engine as
  it is, as do the other calls that only read. So a summary, any number of such calls, and
  a second summary give the same record twice, and the history, the catalog with its
  cooldown timestamps and the containment flag are the same after as before.
\<close>

theorem get_session_summary_idempotent:
  assumes "\<forall>c\<in>set calls. is_query c"
  shows "perform Get_session_summary s = s \<and>
    get_session_summary (session (Get_session_summary # calls) s) = get_session_summary s \<and>
    state_history (session (Get_session_summary # calls) s) = state_history s \<and>
    interventions (session (Get_session_summary # calls) s) = interventions s \<and>
    active_containment (session (Get_session_summary # calls) s) = active_containment s"
proof -
  from assms have "\<forall>c\<in>set (Get_session_summary # calls). is_query c"
    by simp
  then have "session (Get_session_summary # calls) s = s"
    by (rule session_queries)
  then show ?thesis by simp
qed

text \<open>Two summaries of an engine with one snapshot, a detection between them.\<close>

theorem get_session_summary_idempotent_witness:
  "get_session_summary
     (session [Get_session_summary, Detect_patterns (coherence_snapshot 0.3), Get_session_summary]
        (fst (update_state 5 (metrics 2 0.3 0.9 0.8 0.2 0.2) (init ''s''))))
   = get_session_summary (fst (update_state 5 (metrics 2 0.3 0.9 0.8 0.2 0.2) (init ''s'')))"
  using get_session_summary_idempotent
    [of "[Detect_patterns (coherence_snapshot 0.3), Get_session_summary]"
      "fst (update_state 5 (metrics 2 0.3 0.9 0.8 0.2 0.2) (init ''s''))"]
  by simp

section \<open>The count of executed interventions\<close>

lemma summary_exists:
  "state_history s \<noteq> [] \<Longrightarrow> \<exists>r. get_session_summary s = Summary r"
  by (cases "state_history s") (simp_all add: get_session_summary_def Let_def)

lemma summary_count:
  "get_session_summary s = Summary r \<Longrightarrow> interventions_executed r = total_interventions s"
  by (cases "state_history s") (auto simp: get_session_summary_def Let_def)

lemma set_last_executed_again:
  "set_last_executed i t2 (set_last_executed i t1 c) = set_last_executed i t2 c"
  by (induction c) (auto simp: set_last_executed_def)

lemma count_stamped_list:
  "length (filter (\<lambda>x. last_executed x \<noteq> None)
     (map (\<lambda>x. if ident x = i then x\<lparr>last_executed := Some t\<rparr> else x) xs))
   = length (filter (\<lambda>x. last_executed x \<noteq> None \<or> ident x = i) xs)"
  by (induction xs) simp_all

lemma count_set_last_executed:
  "length (filter (\<lambda>x. last_executed x \<noteq> None) (concat (map snd (set_last_executed i t c))))
   = length (filter (\<lambda>x. last_executed x \<noteq> None \<or> ident x = i) (concat (map snd c)))"
proof (induction c)
  case Nil
  then show ?case by (simp add: set_last_executed_def)
next
  case (Cons p c)
  have "set_last_executed i t (p # c) =
      (fst p, map (\<lambda>x. if ident x = i then x\<lparr>last_executed := Some t\<rparr> else x) (snd p))
        # set_last_executed i t c"
    by (simp add: set_last_executed_def split_beta)
  with Cons count_stamped_list [of i t "snd p"] show ?case by simp
qed

lemma total_interventions_invoked:
  "total_interventions (fst (execute_intervention t x st s)) =
     length (filter (\<lambda>y. last_executed y \<noteq> None \<or> ident y = ident x) (catalog_objects s))"
  using count_set_last_executed [of "ident x" t "interventions s"]
  by (simp add: total_interventions_def execute_intervention_fields catalog_objects_def)

lemma total_interventions_invoked_twice:
  "total_interventions (fst (execute_intervention t2 x st2 (fst (execute_intervention t1 x st1 s))))
     = total_interventions (fst (execute_intervention t1 x st1 s))"
proof -
  have "total_interventions
      (fst (execute_intervention t2 x st2 (fst (execute_intervention t1 x st1 s)))) =
      length (filter (\<lambda>y. last_executed y \<noteq> None)
        (concat (map snd (set_last_executed (ident x) t2 (interventions s)))))"
    by (simp add: total_interventions_def execute_intervention_fields set_last_executed_again)
  also have "\<dots> = length (filter (\<lambda>y. last_executed y \<noteq> None \<or> ident y = ident x)
        (catalog_objects s))"
    using count_set_last_executed [of "ident x" t2 "interventions s"]
    by (simp add: catalog_objects_def)
  finally show ?thesis
    by (simp add: total_interventions_invoked)
qed

lemma length_filter_card_ident:
  assumes "distinct (map ident xs)"
  shows "length (filter P xs) = card {ident x |x. x \<in> set xs \<and> P x}"
proof -
  have eq: "{ident x |x. x \<in> set xs \<and> P x} = set (map ident (filter P xs))"
    by auto
  have d: "distinct (map ident (filter P xs))"
    using assms by (rule distinct_map_filter)
  have "card {ident x |x. x \<in> set xs \<and> P x} = card (set (map ident (filter P xs)))"
    by (simp only: eq)
  also have "\<dots> = length (map ident (filter P xs))"
    using d by (rule distinct_card)
  finally show ?thesis
    by simp
qed

text \<open>
  Claim C8. The field \<^verbatim>\<open>interventions_executed\<close> of a summary is the number of objects
  of the catalog whose \<^verbatim>\<open>last_executed\<close> is set; the identities of the objects being
  distinct, it is the number of identities of such objects. Invoking an intervention a
  second time leaves the field of the summary as it was after the first invocation.
\<close>

theorem interventions_executed_distinct:
  assumes "get_session_summary s = Summary r"
  shows "interventions_executed r =
      length (filter (\<lambda>x. last_executed x \<noteq> None) (catalog_objects s)) \<and>
    (distinct (map ident (catalog_objects s)) \<longrightarrow>
       interventions_executed r =
         card {ident x |x. x \<in> set (catalog_objects s) \<and> last_executed x \<noteq> None}) \<and>
    (\<forall>r1 r2.
       get_session_summary (fst (execute_intervention t1 x st1 s)) = Summary r1 \<and>
       get_session_summary
         (fst (execute_intervention t2 x st2 (fst (execute_intervention t1 x st1 s)))) = Summary r2
       \<longrightarrow> interventions_executed r2 = interventions_executed r1)"
proof -
  have count: "interventions_executed r =
      length (filter (\<lambda>x. last_executed x \<noteq> None) (catalog_objects s))"
    using summary_count [OF assms] by (simp add: total_interventions_def catalog_objects_def)
  have twice: "\<forall>r1 r2.
       get_session_summary (fst (execute_intervention t1 x st1 s)) = Summary r1 \<and>
       get_session_summary
         (fst (execute_intervention t2 x st2 (fst (execute_intervention t1 x st1 s)))) = Summary r2
       \<longrightarrow> interventions_executed r2 = interventions_executed r1"
  proof (intro allI impI, elim conjE)
    fix r1 r2
    assume a: "get_session_summary (fst (execute_intervention t1 x st1 s)) = Summary r1"
      and b: "get_session_summary
         (fst (execute_intervention t2 x st2 (fst (execute_intervention t1 x st1 s)))) = Summary r2"
    from summary_count [OF a] summary_count [OF b]
    show "interventions_executed r2 = interventions_executed r1"
      by (simp add: total_interventions_invoked_twice)
  qed
  have card: "distinct (map ident (catalog_objects s)) \<longrightarrow>
       interventions_executed r =
         card {ident x |x. x \<in> set (catalog_objects s) \<and> last_executed x \<noteq> None}"
  proof
    assume d: "distinct (map ident (catalog_objects s))"
    from length_filter_card_ident [OF d, of "\<lambda>x. last_executed x \<noteq> None"] count
    show "interventions_executed r =
         card {ident x |x. x \<in> set (catalog_objects s) \<and> last_executed x \<noteq> None}"
      by (simp only:)
  qed
  from count card twice show ?thesis
    by blast
qed

text \<open>
  An engine with one snapshot; the emergency containment is invoked at instant 7 and again
  at instant 8. The summaries count no intervention before and one after each invocation.
\<close>

theorem interventions_executed_distinct_witness:
  "\<exists>r r1 r2.
     get_session_summary (fst (update_state 5 (metrics 2 0.3 0.9 0.8 0.2 0.2) (init ''s'')))
       = Summary r \<and>
     get_session_summary
       (fst (execute_intervention 7
          (new_Intervention 5 CONTAINMENT 10 emergency_containment
             ''Full system containment protocol'' 240) (coherence_snapshot 0.3)
          (fst (update_state 5 (metrics 2 0.3 0.9 0.8 0.2 0.2) (init ''s''))))) = Summary r1 \<and>
     get_session_summary
       (fst (execute_intervention 8
          (new_Intervention 5 CONTAINMENT 10 emergency_containment
             ''Full system containment protocol'' 240) (coherence_snapshot 0.3)
          (fst (execute_intervention 7
             (new_Intervention 5 CONTAINMENT 10 emergency_containment
                ''Full system containment protocol'' 240) (coherence_snapshot 0.3)
             (fst (update_state 5 (metrics 2 0.3 0.9 0.8 0.2 0.2) (init ''s''))))))) = Summary r2 \<and>
     interventions_executed r = 0 \<and> interventions_executed r1 = 1 \<and>
     interventions_executed r2 = 1 \<and>
     card {ident y |y. y \<in> set (catalog_objects
        (fst (execute_intervention 7
          (new_Intervention 5 CONTAINMENT 10 emergency_containment
             ''Full system containment protocol'' 240) (coherence_snapshot 0.3)
          (fst (update_state 5 (metrics 2 0.3 0.9 0.8 0.2 0.2) (init ''s'')))))) \<and>
        last_executed y \<noteq> None} = 1"
proof -
  let ?x = "new_Intervention 5 CONTAINMENT 10 emergency_containment
             ''Full system containment protocol'' 240"
  let ?st = "coherence_snapshot 0.3"
  let ?s = "fst (update_state 5 (metrics 2 0.3 0.9 0.8 0.2 0.2) (init ''s''))"
  let ?s1 = "fst (execute_intervention 7 ?x ?st ?s)"
  let ?s2 = "fst (execute_intervention 8 ?x ?st ?s1)"
  have h: "state_history ?s \<noteq> []" "state_history ?s1 \<noteq> []" "state_history ?s2 \<noteq> []"
    by (simp_all add: execute_intervention_fields update_state_history)
  obtain r where r: "get_session_summary ?s = Summary r"
    using summary_exists [OF h(1)] by blast
  obtain r1 where r1: "get_session_summary ?s1 = Summary r1"
    using summary_exists [OF h(2)] by blast
  obtain r2 where r2: "get_session_summary ?s2 = Summary r2"
    using summary_exists [OF h(3)] by blast
  have "catalog_objects ?s = concat (map snd initialize_interventions)"
    by (simp add: catalog_objects_def update_state_fields init_def)
  then have 0: "interventions_executed r = 0"
    using interventions_executed_distinct [OF r]
    by (simp add: initialize_interventions_def new_Intervention_def)
  have "length (filter (\<lambda>y. last_executed y \<noteq> None) (catalog_objects ?s1)) = 1"
    by (simp add: catalog_objects_def execute_intervention_fields update_state_fields init_def
        initialize_interventions_def new_Intervention_def set_last_executed_def)
  then have 1: "interventions_executed r1 = 1"
    using interventions_executed_distinct [OF r1] by simp
  have 2: "interventions_executed r2 = interventions_executed r1"
    using interventions_executed_distinct [OF r, where x = ?x and ?t1.0 = 7 and ?t2.0 = 8
        and ?st1.0 = ?st and ?st2.0 = ?st] r1 r2
    by blast
  have "distinct (map ident (catalog_objects ?s1))"
    by (simp add: catalog_objects_def execute_intervention_fields update_state_fields init_def
        initialize_interventions_def new_Intervention_def set_last_executed_def)
  then have 3: "card {ident y |y. y \<in> set (catalog_objects ?s1) \<and> last_executed y \<noteq> None} = 1"
    using interventions_executed_distinct [OF r1] 1 by (simp only:)
  from r r1 r2 0 1 2 3 show ?thesis
    by (intro exI [of _ r] exI [of _ r1] exI [of _ r2]) (simp only: simp_thms)
qed

section \<open>The catalog during a session\<close>

lemma stamped_initial: "stamped (\<lambda>i. None) initialize_interventions = initialize_interventions"
  by (simp add: stamped_def initialize_interventions_def new_Intervention_def)

lemma stamp_again:
  "(\<lambda>x. if ident x = i then x\<lparr>last_executed := Some t\<rparr> else x) \<circ> (\<lambda>x. x\<lparr>last_executed := f (ident x)\<rparr>)
     = (\<lambda>x. x\<lparr>last_executed := (f(i := Some t)) (ident x)\<rparr>)"
  by (rule ext) simp

lemma set_last_executed_stamped:
  "set_last_executed i t (stamped f c) = stamped (f(i := Some t)) c"
proof (induction c)
  case Nil
  then show ?case by (simp add: set_last_executed_def stamped_def)
next
  case (Cons p c)
  have "set_last_executed i t (stamped f (p # c)) =
      (fst p, map ((\<lambda>x. if ident x = i then x\<lparr>last_executed := Some t\<rparr> else x)
                     \<circ> (\<lambda>x. x\<lparr>last_executed := f (ident x)\<rparr>)) (snd p))
        # set_last_executed i t (stamped f c)"
    by (simp add: set_last_executed_def stamped_def split_beta)
  also have "\<dots> = (fst p, map (\<lambda>x. x\<lparr>last_executed := (f(i := Some t)) (ident x)\<rparr>) (snd p))
        # stamped (f(i := Some t)) c"
    by (simp only: stamp_again Cons)
  also have "\<dots> = stamped (f(i := Some t)) (p # c)"
    by (simp add: stamped_def split_beta)
  finally show ?case .
qed

lemma map_of_stamped:
  "map_of (stamped f c) ty = map_option (map (\<lambda>x. x\<lparr>last_executed := f (ident x)\<rparr>)) (map_of c ty)"
  by (induction c) (auto simp: stamped_def)

lemma process_cycle_interventions:
  "interventions (fst (process_cycle now kw s)) =
     (case select_intervention (at_select now)
             (detect_patterns (fst (update_state (at_update now) kw s))
                (snd (update_state (at_update now) kw s)))
             (fst (update_state (at_update now) kw s)) of
        Inr (Some chosen) \<Rightarrow> set_last_executed (ident chosen) (at_execute now) (interventions s)
      | Inr None \<Rightarrow> interventions s
      | Inl e \<Rightarrow> interventions s)"
proof (cases "detect_patterns (fst (update_state (at_update now) kw s))
             (snd (update_state (at_update now) kw s)) = []")
  case True
  then show ?thesis
    by (simp add: process_cycle_def split_beta Let_def select_intervention_Nil update_state_fields)
next
  case False
  then show ?thesis
    by (simp add: process_cycle_def split_beta Let_def update_state_fields
        execute_intervention_fields split: sum.splits option.splits)
qed

lemma perform_stamped:
  assumes "\<exists>f. interventions s = stamped f initialize_interventions"
  shows "\<exists>f. interventions (perform c s) = stamped f initialize_interventions"
proof -
  from assms obtain f where f: "interventions s = stamped f initialize_interventions"
    by blast
  have stamp: "\<exists>g. set_last_executed i t (interventions s) = stamped g initialize_interventions"
    for i t
    unfolding f set_last_executed_stamped by blast
  show ?thesis
  proof (cases c)
    case (Update_state t kw)
    with assms show ?thesis by (simp add: update_state_fields)
  next
    case (Execute_intervention t x st)
    with stamp show ?thesis by (simp add: execute_intervention_fields)
  next
    case (Process_cycle now kw)
    with stamp assms show ?thesis
      by (simp add: process_cycle_interventions split: sum.splits option.splits)
  qed (use assms in simp_all)
qed

lemma session_stamped:
  "\<exists>f. interventions s = stamped f initialize_interventions \<Longrightarrow>
   \<exists>f. interventions (session cs s) = stamped f initialize_interventions"
  unfolding session_def by (induction cs arbitrary: s) (simp_all add: perform_stamped)

lemma session_init_stamped:
  "\<exists>f. interventions (session cs (init sid)) = stamped f initialize_interventions"
  by (rule session_stamped) (metis init_def LoopBreaker.select_convs(4) stamped_initial)

lemma pattern_to_intervention_range:
  "pattern_to_intervention p = Some ty \<Longrightarrow> ty = CONTAINMENT \<or> ty = IDENTITY_ANCHOR \<or> ty = GROUNDING"
  by (cases p) auto

lemma stamped_candidates:
  assumes "ty = CONTAINMENT \<or> ty = IDENTITY_ANCHOR \<or> ty = GROUNDING"
  shows "\<exists>a b. map_of (stamped f initialize_interventions) ty = Some [a, b] \<and>
     intervention_type a = ty \<and> intervention_type b = ty \<and> ident a < 6 \<and> ident b < 6
     \<and> ident a \<noteq> ident b"
  using assms
  by (auto simp: map_of_stamped initialize_interventions_def new_Intervention_def)

section \<open>Selection\<close>

lemma max_by_priority_first_greatest:
  "first_greatest priority (max_by_priority a xs) (a # xs)"
proof (induction xs arbitrary: a)
  case Nil
  have "[a] = [] @ a # []" by simp
  then show ?case
    unfolding first_greatest_def by (intro exI [of _ "[]"]) simp
next
  case (Cons x xs)
  show ?case
  proof (cases "priority x > priority a")
    case True
    from Cons [of x] obtain ys zs
      where d: "x # xs = ys @ max_by_priority x xs # zs"
        and lo: "\<forall>y\<in>set ys. priority y < priority (max_by_priority x xs)"
        and hi: "\<forall>z\<in>set zs. priority z \<le> priority (max_by_priority x xs)"
      unfolding first_greatest_def by blast
    have "x \<in> set (ys @ max_by_priority x xs # zs)"
      using d by (metis list.set_intros(1))
    with lo hi have "priority x \<le> priority (max_by_priority x xs)"
      by auto
    with True have "priority a < priority (max_by_priority x xs)"
      by simp
    with lo have lo': "\<forall>y\<in>set (a # ys). priority y < priority (max_by_priority x xs)"
      by simp
    have "a # x # xs = (a # ys) @ max_by_priority x xs # zs"
      using d by simp
    with lo' hi have "first_greatest priority (max_by_priority x xs) (a # x # xs)"
      unfolding first_greatest_def by blast
    with True show ?thesis by simp
  next
    case False
    from Cons [of a] obtain ys zs
      where d: "a # xs = ys @ max_by_priority a xs # zs"
        and lo: "\<forall>y\<in>set ys. priority y < priority (max_by_priority a xs)"
        and hi: "\<forall>z\<in>set zs. priority z \<le> priority (max_by_priority a xs)"
      unfolding first_greatest_def by blast
    have "first_greatest priority (max_by_priority a xs) (a # x # xs)"
    proof (cases ys)
      case Nil
      from d have "a # xs = max_by_priority a xs # zs"
        unfolding Nil by (simp only: append_Nil)
      then have a: "max_by_priority a xs = a" and zs: "zs = xs"
        by (metis list.inject)+
      have "\<forall>z\<in>set (x # xs). priority z \<le> priority a"
        using hi False a zs by simp
      then have "first_greatest priority a (a # x # xs)"
        unfolding first_greatest_def by (intro exI [of _ "[]"] exI [of _ "x # xs"]) simp
      then show ?thesis
        by (simp only: a)
    next
      case (Cons y ys')
      from d have "a # xs = y # (ys' @ max_by_priority a xs # zs)"
        unfolding Cons by (simp only: append_Cons)
      then have y: "y = a" and xs: "xs = ys' @ max_by_priority a xs # zs"
        by (metis list.inject)+
      from lo Cons y have "priority a < priority (max_by_priority a xs)"
        by simp
      with False have "priority x < priority (max_by_priority a xs)"
        by simp
      with lo Cons y have "\<forall>v\<in>set (a # x # ys'). priority v < priority (max_by_priority a xs)"
        by simp
      moreover have "a # x # xs = (a # x # ys') @ max_by_priority a xs # zs"
        using xs by simp
      ultimately show ?thesis
        using hi unfolding first_greatest_def by blast
    qed
    with False show ?thesis by simp
  qed
qed

lemma sort_key_first_least:
  "xs \<noteq> [] \<Longrightarrow>
     \<exists>m rest ys zs. sort_key f xs = m # rest \<and> xs = ys @ m # zs \<and>
        (\<forall>y\<in>set ys. f m < f y) \<and> (\<forall>z\<in>set zs. f m \<le> f z)"
proof (induction xs)
  case Nil
  then show ?case by simp
next
  case (Cons x xs)
  show ?case
  proof (cases "xs = []")
    case True
    then have "sort_key f (x # xs) = x # []" "x # xs = [] @ x # []"
      by simp_all
    then show ?thesis by force
  next
    case False
    with Cons obtain m rest ys zs
      where s: "sort_key f xs = m # rest" and d: "xs = ys @ m # zs"
        and lo: "\<forall>y\<in>set ys. f m < f y" and hi: "\<forall>z\<in>set zs. f m \<le> f z"
      by blast
    show ?thesis
    proof (cases "f x \<le> f m")
      case True
      have "sort_key f (x # xs) = x # m # rest"
        using s True by simp
      moreover have "x # xs = [] @ x # xs"
        by simp
      moreover have "\<forall>z\<in>set xs. f x \<le> f z"
        using d lo hi True by (auto simp: less_imp_le order_trans)
      ultimately show ?thesis
        by (intro exI [of _ x] exI [of _ "m # rest"] exI [of _ "[]"] exI [of _ xs]) simp
    next
      case False
      then have "sort_key f (x # xs) = m # insort_key f x rest"
        using s by simp
      moreover have "x # xs = (x # ys) @ m # zs"
        using d by simp
      moreover have "\<forall>y\<in>set (x # ys). f m < f y"
        using lo False by simp
      ultimately show ?thesis
        using hi by blast
    qed
  qed
qed

lemma sort_by_confidence_primary:
  assumes "patterns \<noteq> []"
  shows "\<exists>primary others. sort_by_confidence patterns = primary # others \<and>
     first_greatest (\<lambda>x. fst (snd x)) primary patterns"
proof -
  from sort_key_first_least [OF assms, of "\<lambda>x. - fst (snd x)"]
  obtain m rest ys zs
    where "sort_key (\<lambda>x. - fst (snd x)) patterns = m # rest" and "patterns = ys @ m # zs"
      and "\<forall>y\<in>set ys. - fst (snd m) < - fst (snd y)"
      and "\<forall>z\<in>set zs. - fst (snd m) \<le> - fst (snd z)"
    by blast
  then have "sort_by_confidence patterns = m # rest"
    and "first_greatest (\<lambda>x. fst (snd x)) m patterns"
    unfolding first_greatest_def sort_by_confidence_def by auto
  then show ?thesis by blast
qed

lemma first_greatest_Nil: "\<not> first_greatest key x []"
  by (simp add: first_greatest_def)

lemma first_greatest_Cons:
  "first_greatest key x (y # ys) \<longleftrightarrow>
     (x = y \<and> (\<forall>z\<in>set ys. key z \<le> key x)) \<or> (key y < key x \<and> first_greatest key x ys)"
proof
  assume "first_greatest key x (y # ys)"
  then obtain us zs where d: "y # ys = us @ x # zs"
    and lo: "\<forall>u\<in>set us. key u < key x" and hi: "\<forall>z\<in>set zs. key z \<le> key x"
    unfolding first_greatest_def by blast
  show "(x = y \<and> (\<forall>z\<in>set ys. key z \<le> key x)) \<or> (key y < key x \<and> first_greatest key x ys)"
  proof (cases us)
    case Nil
    from d have "y # ys = x # zs"
      unfolding Nil by (simp only: append_Nil)
    then have "x = y" "zs = ys"
      by (metis list.inject)+
    with hi show ?thesis by blast
  next
    case (Cons u us')
    from d have "y # ys = u # (us' @ x # zs)"
      unfolding Cons by (simp only: append_Cons)
    then have u: "u = y" and ys: "ys = us' @ x # zs"
      by (metis list.inject)+
    from lo Cons u have "key y < key x" and "\<forall>v\<in>set us'. key v < key x"
      by simp_all
    with ys hi have "key y < key x \<and> first_greatest key x ys"
      unfolding first_greatest_def by blast
    then show ?thesis by blast
  qed
next
  assume "(x = y \<and> (\<forall>z\<in>set ys. key z \<le> key x)) \<or> (key y < key x \<and> first_greatest key x ys)"
  then show "first_greatest key x (y # ys)"
  proof
    assume a: "x = y \<and> (\<forall>z\<in>set ys. key z \<le> key x)"
    then have e: "x = y" and h: "\<forall>z\<in>set ys. key z \<le> key x"
      by blast+
    show ?thesis
      unfolding first_greatest_def
    proof (intro exI conjI)
      show "y # ys = [] @ x # ys" using e by simp
      show "\<forall>u\<in>set []. key u < key x" by simp
      show "\<forall>z\<in>set ys. key z \<le> key x" by (rule h)
    qed
  next
    assume a: "key y < key x \<and> first_greatest key x ys"
    then obtain us zs where d: "ys = us @ x # zs"
      and lo: "\<forall>u\<in>set us. key u < key x" and hi: "\<forall>z\<in>set zs. key z \<le> key x"
      unfolding first_greatest_def by blast
    have "y # ys = (y # us) @ x # zs"
      using d by simp
    moreover have "\<forall>u\<in>set (y # us). key u < key x"
      using a lo by simp
    ultimately show ?thesis
      using hi unfolding first_greatest_def by blast
  qed
qed

text \<open>
  Claim C4. For the empty list the selection is none. For a non-empty list the primary
  pattern is the first of the entries of greatest confidence (the stable descending sort
  puts it in front), its category is the one that the fixed table gives, and, \<open>candidates\<close>
  being the interventions that the catalog lists for that category, the selection is none
  when none of them is off cooldown and otherwise the first, in catalog order, of those of
  greatest priority among the ones off cooldown. During a session on a fresh engine the
  catalog lists every category of the table.
\<close>

theorem select_intervention_highest_priority:
  "select_intervention t [] s = Inr None \<and>
   pattern_to_intervention SYMBOLIC_FLOODING = Some CONTAINMENT \<and>
   pattern_to_intervention IDENTITY_FRAGMENTATION = Some IDENTITY_ANCHOR \<and>
   pattern_to_intervention RECURSIVE_SPIRAL = Some GROUNDING \<and>
   pattern_to_intervention MEANING_COLLAPSE = Some CONTAINMENT \<and>
   pattern_to_intervention TEMPORAL_DISCONNECTION = Some GROUNDING \<and>
   pattern_to_intervention CONTAINMENT_BREACH = Some CONTAINMENT \<and>
   (patterns \<noteq> [] \<longrightarrow>
      (\<exists>primary ty.
         first_greatest (\<lambda>x. fst (snd x)) primary patterns \<and>
         pattern_to_intervention (fst primary) = Some ty \<and>
         (\<forall>candidates. map_of (interventions s) ty = Some candidates \<longrightarrow>
            (if filter (off_cooldown t) candidates = []
             then select_intervention t patterns s = Inr None
             else \<exists>chosen. select_intervention t patterns s = Inr (Some chosen) \<and>
                    first_greatest priority chosen (filter (off_cooldown t) candidates))) \<and>
         (s = session calls (init sid) \<longrightarrow>
            (\<exists>candidates. map_of (interventions s) ty = Some candidates))))"
proof -
  have main: "\<exists>primary ty.
         first_greatest (\<lambda>x. fst (snd x)) primary patterns \<and>
         pattern_to_intervention (fst primary) = Some ty \<and>
         (\<forall>candidates. map_of (interventions s) ty = Some candidates \<longrightarrow>
            (if filter (off_cooldown t) candidates = []
             then select_intervention t patterns s = Inr None
             else \<exists>chosen. select_intervention t patterns s = Inr (Some chosen) \<and>
                    first_greatest priority chosen (filter (off_cooldown t) candidates))) \<and>
         (s = session calls (init sid) \<longrightarrow>
            (\<exists>candidates. map_of (interventions s) ty = Some candidates))"
    if ne: "patterns \<noteq> []"
  proof -
    from sort_by_confidence_primary [OF ne] obtain primary others
      where sorted: "sort_by_confidence patterns = primary # others"
        and first: "first_greatest (\<lambda>x. fst (snd x)) primary patterns"
      by blast
    obtain ty where ty: "pattern_to_intervention (fst primary) = Some ty"
      by (cases "fst primary") simp_all
    have sel: "if filter (off_cooldown t) candidates = []
             then select_intervention t patterns s = Inr None
             else \<exists>chosen. select_intervention t patterns s = Inr (Some chosen) \<and>
                    first_greatest priority chosen (filter (off_cooldown t) candidates)"
      if c: "map_of (interventions s) ty = Some candidates" for candidates
    proof (cases "filter (off_cooldown t) candidates")
      case Nil
      then show ?thesis
        by (simp add: select_intervention_def sorted ty c)
    next
      case (Cons a available)
      have "select_intervention t patterns s = Inr (Some (max_by_priority a available))"
        by (simp add: select_intervention_def sorted ty c Cons)
      moreover have "first_greatest priority (max_by_priority a available) (a # available)"
        by (rule max_by_priority_first_greatest)
      ultimately show ?thesis
        unfolding Cons by simp
    qed
    have keys: "\<exists>candidates. map_of (interventions s) ty = Some candidates"
      if s: "s = session calls (init sid)"
    proof -
      from session_init_stamped [of calls sid] obtain f
        where "interventions s = stamped f initialize_interventions"
        unfolding s by blast
      with stamped_candidates [OF pattern_to_intervention_range [OF ty], of f]
      show ?thesis by auto
    qed
    from first ty sel keys show ?thesis
      by blast
  qed
  then show ?thesis
    by (simp add: select_intervention_Nil)
qed

text \<open>
  On a fresh engine, a recursive spiral and a symbolic flooding of equal confidence 0.8: the
  spiral, which comes first, is primary, and the grounding intervention of priority 7 is
  selected before the one of priority 6.
\<close>

theorem select_intervention_highest_priority_witness:
  "select_intervention 0
     [(TEMPORAL_DISCONNECTION, 0.6, ''a''), (RECURSIVE_SPIRAL, 0.8, ''b''),
      (SYMBOLIC_FLOODING, 0.8, ''c'')] (init ''s'')
   = Inr (Some (new_Intervention 0 GROUNDING 7 loop_breath_protocol
        ''Basic breathing and sensory grounding'' 10))"
proof -
  let ?ps = "[(TEMPORAL_DISCONNECTION, 0.6, ''a''), (RECURSIVE_SPIRAL, 0.8, ''b''),
      (SYMBOLIC_FLOODING, 0.8, ''c'')] :: detection list"
  have cat: "map_of (interventions (init ''s'')) GROUNDING =
      Some [new_Intervention 0 GROUNDING 7 loop_breath_protocol
              ''Basic breathing and sensory grounding'' 10,
            new_Intervention 1 GROUNDING 6 physical_anchor_protocol
              ''Physical contact and verbal anchoring'' 15]"
    by (simp add: init_def initialize_interventions_def)
  from select_intervention_highest_priority [of 0 "init ''s''" ?ps "[]" "''s''"]
  obtain primary ty where first: "first_greatest (\<lambda>x. fst (snd x)) primary ?ps"
    and ty: "pattern_to_intervention (fst primary) = Some ty"
    and sel: "\<forall>candidates. map_of (interventions (init ''s'')) ty = Some candidates \<longrightarrow>
            (if filter (off_cooldown 0) candidates = []
             then select_intervention 0 ?ps (init ''s'') = Inr None
             else \<exists>chosen. select_intervention 0 ?ps (init ''s'') = Inr (Some chosen) \<and>
                    first_greatest priority chosen (filter (off_cooldown 0) candidates))"
    by auto
  from first have "primary = (RECURSIVE_SPIRAL, 0.8, ''b'')"
    by (auto simp: first_greatest_Cons first_greatest_Nil)
  with ty have "ty = GROUNDING"
    by simp
  with sel cat show ?thesis
    by (auto simp: off_cooldown_def new_Intervention_def first_greatest_Cons first_greatest_Nil)
qed

section \<open>What a selection can return\<close>

lemma max_by_priority_member: "max_by_priority a xs \<in> set (a # xs)"
proof -
  from max_by_priority_first_greatest [of a xs] obtain ys zs
    where "a # xs = ys @ max_by_priority a xs # zs"
    unfolding first_greatest_def by blast
  then show ?thesis
    by (metis in_set_conv_decomp)
qed

lemma select_intervention_eq:
  assumes "sort_by_confidence patterns = primary # others"
    and "pattern_to_intervention (fst primary) = Some ty"
    and "map_of (interventions s) ty = Some candidates"
  shows "select_intervention t patterns s =
     (case filter (off_cooldown t) candidates of
        [] \<Rightarrow> Inr None
      | a # available \<Rightarrow> Inr (Some (max_by_priority a available)))"
  using assms by (simp add: select_intervention_def)

lemma select_intervention_SomeD:
  assumes "select_intervention t patterns s = Inr (Some x)"
  shows "\<exists>primary others ty candidates.
     sort_by_confidence patterns = primary # others \<and>
     pattern_to_intervention (fst primary) = Some ty \<and>
     map_of (interventions s) ty = Some candidates \<and>
     x \<in> set candidates \<and> off_cooldown t x"
proof (cases "sort_by_confidence patterns")
  case Nil
  with assms show ?thesis
    by (simp add: select_intervention_def)
next
  case (Cons primary others)
  obtain ty where ty: "pattern_to_intervention (fst primary) = Some ty"
    by (cases "fst primary") simp_all
  show ?thesis
  proof (cases "map_of (interventions s) ty")
    case None
    with assms Cons ty show ?thesis
      by (simp add: select_intervention_def)
  next
    case (Some candidates)
    note eq = select_intervention_eq [OF Cons ty Some, of t]
    show ?thesis
    proof (cases "filter (off_cooldown t) candidates")
      case Nil
      with assms eq show ?thesis by simp
    next
      case (Cons a available)
      with assms eq have "x = max_by_priority a available"
        by simp
      then have "x \<in> set (filter (off_cooldown t) candidates)"
        using max_by_priority_member [of a available] Cons by simp
      then have "x \<in> set candidates \<and> off_cooldown t x"
        by simp
      with \<open>sort_by_confidence patterns = primary # others\<close> ty Some show ?thesis
        by blast
    qed
  qed
qed

lemma select_intervention_stamped:
  assumes "interventions s = stamped f initialize_interventions"
  shows "select_intervention t patterns s = Inr None \<or>
     (\<exists>chosen. select_intervention t patterns s = Inr (Some chosen) \<and> ident chosen < 6 \<and>
        (intervention_type chosen = CONTAINMENT \<or> intervention_type chosen = IDENTITY_ANCHOR \<or>
         intervention_type chosen = GROUNDING))"
proof (cases "sort_by_confidence patterns")
  case Nil
  then show ?thesis
    by (simp add: select_intervention_def)
next
  case (Cons primary others)
  obtain ty where ty: "pattern_to_intervention (fst primary) = Some ty"
    by (cases "fst primary") simp_all
  note range = pattern_to_intervention_range [OF ty]
  from stamped_candidates [OF range, of f] obtain a b
    where ab: "map_of (interventions s) ty = Some [a, b]"
      and props: "intervention_type a = ty" "intervention_type b = ty" "ident a < 6" "ident b < 6"
    unfolding assms by blast
  note eq = select_intervention_eq [OF Cons ty ab, of t]
  show ?thesis
  proof (cases "filter (off_cooldown t) [a, b]")
    case Nil
    with eq show ?thesis by simp
  next
    case (Cons c available)
    with eq have sel: "select_intervention t patterns s = Inr (Some (max_by_priority c available))"
      by simp
    have "max_by_priority c available \<in> set (filter (off_cooldown t) [a, b])"
      using max_by_priority_member [of c available] Cons by simp
    then have "max_by_priority c available \<in> set [a, b]"
      by (metis filter_is_subset subsetD)
    then have "max_by_priority c available = a \<or> max_by_priority c available = b"
      by simp
    with props range have "ident (max_by_priority c available) < 6 \<and>
        (intervention_type (max_by_priority c available) = CONTAINMENT \<or>
         intervention_type (max_by_priority c available) = IDENTITY_ANCHOR \<or>
         intervention_type (max_by_priority c available) = GROUNDING)"
      by auto
    with sel show ?thesis by blast
  qed
qed

lemma perform_redirect:
  assumes "\<exists>f. interventions s = stamped f initialize_interventions \<and> f 6 = None"
    and "\<not> is_execute_intervention c"
  shows "\<exists>f. interventions (perform c s) = stamped f initialize_interventions \<and> f 6 = None"
proof (cases c)
  case (Process_cycle now kw)
  from assms obtain f where f: "interventions s = stamped f initialize_interventions"
    and six: "f 6 = None"
    by blast
  let ?s1 = "fst (update_state (at_update now) kw s)"
  let ?sel = "select_intervention (at_select now)
     (detect_patterns ?s1 (snd (update_state (at_update now) kw s))) ?s1"
  have s1: "interventions ?s1 = stamped f initialize_interventions"
    by (simp add: update_state_fields f)
  from select_intervention_stamped [OF s1] have
    "?sel = Inr None \<or> (\<exists>chosen. ?sel = Inr (Some chosen) \<and> ident chosen < 6)"
    by blast
  then show ?thesis
  proof
    assume "?sel = Inr None"
    with assms(1) show ?thesis
      by (simp add: Process_cycle process_cycle_interventions)
  next
    assume "\<exists>chosen. ?sel = Inr (Some chosen) \<and> ident chosen < 6"
    then obtain chosen where sel: "?sel = Inr (Some chosen)" and lt: "ident chosen < 6"
      by blast
    have "interventions (perform c s) =
        stamped (f(ident chosen := Some (at_execute now))) initialize_interventions"
      by (simp add: Process_cycle process_cycle_interventions sel f set_last_executed_stamped)
    moreover have "(f(ident chosen := Some (at_execute now))) 6 = None"
      using six lt by simp
    ultimately show ?thesis by blast
  qed
next
  case (Update_state t kw)
  with assms(1) show ?thesis by (simp add: update_state_fields)
qed (use assms in simp_all)

lemma session_redirect:
  assumes "\<exists>f. interventions s = stamped f initialize_interventions \<and> f 6 = None"
    and "\<forall>c\<in>set cs. \<not> is_execute_intervention c"
  shows "\<exists>f. interventions (session cs s) = stamped f initialize_interventions \<and> f 6 = None"
  using assms unfolding session_def
proof (induction cs arbitrary: s)
  case Nil
  then show ?case by simp
next
  case (Cons c cs)
  from Cons.prems have "\<exists>f. interventions (perform c s) = stamped f initialize_interventions \<and> f 6 = None"
    by (intro perform_redirect) simp_all
  with Cons.prems Cons.IH [of "perform c s"] show ?case
    by simp
qed

lemma stamped_redirect:
  assumes "f 6 = None"
  shows "map_of (stamped f initialize_interventions) REDIRECT =
       Some [new_Intervention 6 REDIRECT 5 creative_outlet_redirect
               ''Channel energy into creative expression'' 30]"
    and "\<forall>x\<in>set (concat (map snd (stamped f initialize_interventions))).
           intervention_type x = REDIRECT \<longrightarrow> last_executed x = None"
  using assms
  by (simp_all add: stamped_def initialize_interventions_def new_Intervention_def)

text \<open>
  Claim C10. In every state of a session on a fresh engine, a selection returns none or an
  intervention of the containment, identity-anchor or grounding category. When the
  session makes no direct call of \<^verbatim>\<open>execute_intervention\<close>, so that interventions are
  invoked by \<^verbatim>\<open>process_cycle\<close> only, the redirect list of the catalog is as it was
  constructed: its one intervention, the creative outlet, has never been invoked, and no
  object of the redirect category has.
\<close>

theorem redirect_unreachable:
  assumes "s = session calls (init sid)"
  shows "(select_intervention t patterns s = Inr None \<or>
      (\<exists>chosen. select_intervention t patterns s = Inr (Some chosen) \<and>
         (intervention_type chosen = CONTAINMENT \<or> intervention_type chosen = IDENTITY_ANCHOR \<or>
          intervention_type chosen = GROUNDING))) \<and>
    ((\<forall>c\<in>set calls. \<not> is_execute_intervention c) \<longrightarrow>
       map_of (interventions s) REDIRECT =
         Some [new_Intervention 6 REDIRECT 5 creative_outlet_redirect
                 ''Channel energy into creative expression'' 30] \<and>
       (\<forall>x\<in>set (catalog_objects s). intervention_type x = REDIRECT \<longrightarrow> last_executed x = None))"
proof -
  from session_init_stamped [of calls sid] obtain f
    where "interventions s = stamped f initialize_interventions"
    unfolding assms by blast
  from select_intervention_stamped [OF this, of t patterns]
  have sel: "select_intervention t patterns s = Inr None \<or>
      (\<exists>chosen. select_intervention t patterns s = Inr (Some chosen) \<and>
         (intervention_type chosen = CONTAINMENT \<or> intervention_type chosen = IDENTITY_ANCHOR \<or>
          intervention_type chosen = GROUNDING))"
    by blast
  have red: "map_of (interventions s) REDIRECT =
         Some [new_Intervention 6 REDIRECT 5 creative_outlet_redirect
                 ''Channel energy into creative expression'' 30] \<and>
       (\<forall>x\<in>set (catalog_objects s). intervention_type x = REDIRECT \<longrightarrow> last_executed x = None)"
    if calls: "\<forall>c\<in>set calls. \<not> is_execute_intervention c"
  proof -
    have "\<exists>f. interventions (init sid) = stamped f initialize_interventions \<and> f 6 = None"
      by (intro exI [of _ "\<lambda>i. None"]) (simp add: init_def stamped_initial)
    from session_redirect [OF this calls] obtain g
      where g: "interventions s = stamped g initialize_interventions" and six: "g 6 = None"
      unfolding assms by blast
    from stamped_redirect(1) [of g, OF six] stamped_redirect(2) [of g, OF six] show ?thesis
      by (simp only: g catalog_objects_def simp_thms)
  qed
  from sel red show ?thesis
    by blast
qed

text \<open>
  Two cycles on a fresh engine, the second one breaching containment: the redirect list
  is still as constructed.
\<close>

theorem redirect_unreachable_witness:
  "map_of (interventions
     (session [Process_cycle \<lparr>at_update = 1, at_select = 2, at_execute = 3\<rparr>
                 (metrics 2 0.3 0.9 0.8 0.2 0.2),
               Process_cycle \<lparr>at_update = 4, at_select = 5, at_execute = 6\<rparr>
                 (metrics 20 0.5 0.5 0.5 0.5 0.5)] (init ''s''))) REDIRECT =
     Some [new_Intervention 6 REDIRECT 5 creative_outlet_redirect
             ''Channel energy into creative expression'' 30]"
  using redirect_unreachable [OF refl,
      where sid = "''s''" and calls = "[Process_cycle \<lparr>at_update = 1, at_select = 2, at_execute = 3\<rparr>
                 (metrics 2 0.3 0.9 0.8 0.2 0.2),
               Process_cycle \<lparr>at_update = 4, at_select = 5, at_execute = 6\<rparr>
                 (metrics 20 0.5 0.5 0.5 0.5 0.5)]"]
  by simp

section \<open>Cooldown\<close>

lemma map_of_set_last_executed:
  "map_of (set_last_executed i t c) ty =
     map_option (map (\<lambda>x. if ident x = i then x\<lparr>last_executed := Some t\<rparr> else x)) (map_of c ty)"
  by (induction c) (auto simp: set_last_executed_def)

lemma candidates_in_catalog:
  "map_of (interventions s) ty = Some candidates \<Longrightarrow> set candidates \<subseteq> set (catalog_objects s)"
  by (auto simp: catalog_objects_def dest!: map_of_SomeD)

lemma filter_after_invocation:
  assumes "\<forall>y\<in>set xs. ident y = ident x \<longrightarrow> y = x"
    and "\<not> off_cooldown t2 (x\<lparr>last_executed := Some t1\<rparr>)"
  shows "filter (off_cooldown t2)
       (map (\<lambda>y. if ident y = ident x then y\<lparr>last_executed := Some t1\<rparr> else y) xs)
     = filter (\<lambda>y. ident y \<noteq> ident x \<and> off_cooldown t2 y) xs"
  using assms by (induction xs) auto

text \<open>
  Claim C3. An intervention is off cooldown at an instant exactly when it has never been
  invoked or the time since its last invocation exceeds its cooldown. Let a selection
  return \<open>x\<close>, let \<open>x\<close> be invoked at \<open>t1\<close>, and let the same patterns be submitted again at
  an instant \<open>t2\<close> within the cooldown of \<open>x\<close>. With \<open>candidates\<close> the list of the catalog
  that holds \<open>x\<close>, the second selection never returns \<open>x\<close>; it returns the first of
  greatest priority among the other candidates that are off cooldown when there is one,
  and none when there is not, in particular when \<open>x\<close> is alone in its list.
\<close>

theorem cooldown_enforced:
  assumes sel: "select_intervention t0 patterns s = Inr (Some x)"
    and dist: "distinct (map ident (catalog_objects s))"
    and soon: "t2 - t1 \<le> minutes (cooldown_minutes x)"
  shows "(\<forall>t y. off_cooldown t y \<longleftrightarrow>
        last_executed y = None \<or>
        (\<exists>t'. last_executed y = Some t' \<and> t - t' > cooldown_minutes y * 60000000)) \<and>
    off_cooldown t0 x \<and>
    (\<exists>ty candidates.
       map_of (interventions s) ty = Some candidates \<and> x \<in> set candidates \<and>
       (\<forall>z. select_intervention t2 patterns (fst (execute_intervention t1 x state s))
              = Inr (Some z) \<longrightarrow> ident z \<noteq> ident x) \<and>
       (filter (\<lambda>y. ident y \<noteq> ident x \<and> off_cooldown t2 y) candidates \<noteq> [] \<longrightarrow>
          (\<exists>z. select_intervention t2 patterns (fst (execute_intervention t1 x state s))
                 = Inr (Some z) \<and>
               z \<in> set candidates \<and> ident z \<noteq> ident x \<and> off_cooldown t2 z \<and>
               first_greatest priority z
                 (filter (\<lambda>y. ident y \<noteq> ident x \<and> off_cooldown t2 y) candidates))) \<and>
       (filter (\<lambda>y. ident y \<noteq> ident x \<and> off_cooldown t2 y) candidates = [] \<longrightarrow>
          select_intervention t2 patterns (fst (execute_intervention t1 x state s)) = Inr None) \<and>
       ((\<forall>y\<in>set candidates. ident y = ident x) \<longrightarrow>
          select_intervention t2 patterns (fst (execute_intervention t1 x state s)) = Inr None))"
proof -
  let ?s' = "fst (execute_intervention t1 x state s)"
  let ?stamp = "\<lambda>y. if ident y = ident x then y\<lparr>last_executed := Some t1\<rparr> else y"
  have rule: "\<forall>t y. off_cooldown t y \<longleftrightarrow>
        last_executed y = None \<or>
        (\<exists>t'. last_executed y = Some t' \<and> t - t' > cooldown_minutes y * 60000000)"
    by (simp add: off_cooldown_def minutes_def split: option.splits)
  from select_intervention_SomeD [OF sel] obtain primary rest ty candidates
    where sorted: "sort_by_confidence patterns = primary # rest"
      and ty: "pattern_to_intervention (fst primary) = Some ty"
      and cands: "map_of (interventions s) ty = Some candidates"
      and x: "x \<in> set candidates" and off: "off_cooldown t0 x"
    by blast
  let ?others = "filter (\<lambda>y. ident y \<noteq> ident x \<and> off_cooldown t2 y) candidates"
  have "inj_on ident (set (catalog_objects s))"
    using dist by (simp add: distinct_map)
  moreover have "set candidates \<subseteq> set (catalog_objects s)"
    using cands by (rule candidates_in_catalog)
  ultimately have uniq: "\<forall>y\<in>set candidates. ident y = ident x \<longrightarrow> y = x"
    using x by (meson inj_onD subsetD)
  have cool: "\<not> off_cooldown t2 (x\<lparr>last_executed := Some t1\<rparr>)"
    using soon by (simp add: off_cooldown_def)
  have cands': "map_of (interventions ?s') ty = Some (map ?stamp candidates)"
    by (simp add: execute_intervention_fields map_of_set_last_executed cands)
  have eq: "select_intervention t2 patterns ?s' =
      (case ?others of [] \<Rightarrow> Inr None | a # available \<Rightarrow> Inr (Some (max_by_priority a available)))"
    using select_intervention_eq [OF sorted ty cands', of t2]
      filter_after_invocation [OF uniq cool]
    by simp
  have some: "\<exists>z. select_intervention t2 patterns ?s' = Inr (Some z) \<and>
               z \<in> set candidates \<and> ident z \<noteq> ident x \<and> off_cooldown t2 z \<and>
               first_greatest priority z ?others"
    if ne: "?others \<noteq> []"
  proof -
    from ne obtain a available where av: "?others = a # available"
      by (cases ?others) simp_all
    let ?z = "max_by_priority a available"
    have "?z \<in> set ?others"
      using max_by_priority_member [of a available] av by simp
    then have "?z \<in> set candidates \<and> ident ?z \<noteq> ident x \<and> off_cooldown t2 ?z"
      by simp
    moreover have "first_greatest priority ?z ?others"
      using max_by_priority_first_greatest [of a available] av by simp
    moreover have "select_intervention t2 patterns ?s' = Inr (Some ?z)"
      using eq av by simp
    ultimately show ?thesis by blast
  qed
  have none: "select_intervention t2 patterns ?s' = Inr None" if "?others = []"
    using eq that by simp
  have never: "\<forall>z. select_intervention t2 patterns ?s' = Inr (Some z) \<longrightarrow> ident z \<noteq> ident x"
  proof (cases "?others = []")
    case True
    with none show ?thesis by simp
  next
    case False
    from some [OF False] show ?thesis by auto
  qed
  have alone: "select_intervention t2 patterns ?s' = Inr None"
    if "\<forall>y\<in>set candidates. ident y = ident x"
  proof -
    from that have "?others = []"
      by (simp add: filter_empty_conv)
    then show ?thesis by (rule none)
  qed
  from rule off cands x never some none alone show ?thesis
    by blast
qed

text \<open>
  On a fresh engine a containment breach selects the emergency containment; once that is
  invoked at instant 1, the same breach at instant 2 selects the symbolic quarantine. On
  an engine whose catalog holds the symbolic quarantine alone, the second selection is
  none.
\<close>

theorem cooldown_enforced_witness:
  "select_intervention 2 [(CONTAINMENT_BREACH, 1, ''x'')]
     (fst (execute_intervention 1
        (new_Intervention 5 CONTAINMENT 10 emergency_containment
           ''Full system containment protocol'' 240)
        (coherence_snapshot 0.05) (init ''s'')))
   = Inr (Some (new_Intervention 4 CONTAINMENT 9 symbolic_quarantine
        ''Suspend symbolic processing'' 60)) \<and>
   select_intervention 2 [(CONTAINMENT_BREACH, 1, ''x'')]
     (fst (execute_intervention 1
        (new_Intervention 4 CONTAINMENT 9 symbolic_quarantine ''Suspend symbolic processing'' 60)
        (coherence_snapshot 0.05)
        ((init ''s'')\<lparr>interventions :=
           [(CONTAINMENT, [new_Intervention 4 CONTAINMENT 9 symbolic_quarantine
               ''Suspend symbolic processing'' 60])]\<rparr>)))
   = Inr None"
proof -
  let ?ps = "[(CONTAINMENT_BREACH, 1, ''x'')] :: detection list"
  let ?E = "new_Intervention 5 CONTAINMENT 10 emergency_containment
           ''Full system containment protocol'' 240"
  let ?Q = "new_Intervention 4 CONTAINMENT 9 symbolic_quarantine ''Suspend symbolic processing'' 60"
  let ?st = "coherence_snapshot 0.05"
  let ?single = "(init ''s'')\<lparr>interventions := [(CONTAINMENT, [?Q])]\<rparr>"
  have sel1: "select_intervention 0 ?ps (init ''s'') = Inr (Some ?E)"
    by (simp add: select_intervention_def sort_by_confidence_def init_def
        initialize_interventions_def off_cooldown_def new_Intervention_def)
  have dist1: "distinct (map ident (catalog_objects (init ''s'')))"
    by (simp add: catalog_objects_def init_def initialize_interventions_def new_Intervention_def)
  have soon1: "2 - 1 \<le> minutes (cooldown_minutes ?E)"
    by (simp add: minutes_def new_Intervention_def)
  from cooldown_enforced [OF sel1 dist1 soon1, of ?st] obtain ty candidates
    where c: "map_of (interventions (init ''s'')) ty = Some candidates" "?E \<in> set candidates"
      and r: "filter (\<lambda>y. ident y \<noteq> ident ?E \<and> off_cooldown 2 y) candidates \<noteq> [] \<longrightarrow>
          (\<exists>z. select_intervention 2 ?ps (fst (execute_intervention 1 ?E ?st (init ''s'')))
                 = Inr (Some z) \<and>
               first_greatest priority z
                 (filter (\<lambda>y. ident y \<noteq> ident ?E \<and> off_cooldown 2 y) candidates))"
    by blast
  from c have "candidates = [?Q, ?E]"
    by (cases ty) (auto simp: init_def initialize_interventions_def new_Intervention_def)
  with r have first: "select_intervention 2 ?ps (fst (execute_intervention 1 ?E ?st (init ''s'')))
      = Inr (Some ?Q)"
    by (auto simp: off_cooldown_def new_Intervention_def first_greatest_Cons first_greatest_Nil)
  have sel2: "select_intervention 0 ?ps ?single = Inr (Some ?Q)"
    by (simp add: select_intervention_def sort_by_confidence_def off_cooldown_def
        new_Intervention_def)
  have dist2: "distinct (map ident (catalog_objects ?single))"
    by (simp add: catalog_objects_def)
  have soon2: "2 - 1 \<le> minutes (cooldown_minutes ?Q)"
    by (simp add: minutes_def new_Intervention_def)
  from cooldown_enforced [OF sel2 dist2 soon2, of ?st] obtain ty' candidates'
    where c': "map_of (interventions ?single) ty' = Some candidates'"
      and r': "(\<forall>y\<in>set candidates'. ident y = ident ?Q) \<longrightarrow>
          select_intervention 2 ?ps (fst (execute_intervention 1 ?Q ?st ?single)) = Inr None"
    by blast
  from c' have "candidates' = [?Q]"
    by (cases ty') (auto split: if_splits)
  with r' have second: "select_intervention 2 ?ps (fst (execute_intervention 1 ?Q ?st ?single))
      = Inr None"
    by simp
  from first second show ?thesis
    by blast
qed

section \<open>The test session\<close>

lemma process_cycle_quiet:
  assumes "detect_patterns (fst (update_state (at_update now) kw s))
      (snd (update_state (at_update now) kw s)) = []"
  shows "fst (process_cycle now kw s) = fst (update_state (at_update now) kw s)"
    and "detected_names (snd (process_cycle now kw s)) = []"
    and "intervention_of (snd (process_cycle now kw s)) = None"
  using assms
  by (simp_all add: process_cycle_def split_beta Let_def detected_names_def intervention_of_def)

lemma process_cycle_names:
  assumes "select_intervention (at_select now)
      (detect_patterns (fst (update_state (at_update now) kw s))
         (snd (update_state (at_update now) kw s)))
      (fst (update_state (at_update now) kw s)) = Inr r"
  shows "detected_names (snd (process_cycle now kw s)) =
     map (\<lambda>d. pattern_value (fst d))
       (detect_patterns (fst (update_state (at_update now) kw s))
          (snd (update_state (at_update now) kw s)))"
  using assms
  by (cases r)
    (simp_all add: process_cycle_def split_beta Let_def detected_names_def comp_def)

lemma process_cycle_intervention:
  assumes "select_intervention (at_select now)
      (detect_patterns (fst (update_state (at_update now) kw s))
         (snd (update_state (at_update now) kw s)))
      (fst (update_state (at_update now) kw s)) = Inr (Some chosen)"
  shows "intervention_of (snd (process_cycle now kw s)) =
     Some (snd (execute_intervention (at_execute now) chosen
        (snd (update_state (at_update now) kw s)) (fst (update_state (at_update now) kw s))))"
proof -
  have "detect_patterns (fst (update_state (at_update now) kw s))
         (snd (update_state (at_update now) kw s)) \<noteq> []"
    using assms select_intervention_Nil by fastforce
  with assms show ?thesis
    by (simp add: process_cycle_def split_beta Let_def intervention_of_def)
qed

lemma lb1_quiet:
  "fst (lb1 sid c1) = fst (update_state (at_update c1) (metrics 2 0.3 0.9 0.8 0.2 0.2) (init sid))"
  "detected_names (snd (lb1 sid c1)) = []"
proof -
  have "detect_patterns
      (fst (update_state (at_update c1) (metrics 2 0.3 0.9 0.8 0.2 0.2) (init sid)))
      (snd (update_state (at_update c1) (metrics 2 0.3 0.9 0.8 0.2 0.2) (init sid))) = []"
    by (simp add: detect_patterns_def update_state_def Let_def init_def metrics_def default_def
        initialize_detectors_def detector_defs total_seconds_def)
  from process_cycle_quiet(1,2) [OF this]
  show "fst (lb1 sid c1) = fst (update_state (at_update c1) (metrics 2 0.3 0.9 0.8 0.2 0.2) (init sid))"
    and "detected_names (snd (lb1 sid c1)) = []"
    by (simp_all add: lb1_def)
qed

lemma lb2_quiet:
  "fst (lb2 sid c1 c2) =
     fst (update_state (at_update c2) (metrics 6 0.7 0.6 0.5 0.6 0.6) (fst (lb1 sid c1)))"
  "detected_names (snd (lb2 sid c1 c2)) = []"
proof -
  have "detect_patterns
      (fst (update_state (at_update c2) (metrics 6 0.7 0.6 0.5 0.6 0.6) (fst (lb1 sid c1))))
      (snd (update_state (at_update c2) (metrics 6 0.7 0.6 0.5 0.6 0.6) (fst (lb1 sid c1)))) = []"
    by (simp add: lb1_quiet detect_patterns_def update_state_def Let_def init_def metrics_def
        default_def initialize_detectors_def detector_defs total_seconds_def)
  from process_cycle_quiet(1,2) [OF this]
  show "fst (lb2 sid c1 c2) =
     fst (update_state (at_update c2) (metrics 6 0.7 0.6 0.5 0.6 0.6) (fst (lb1 sid c1)))"
    and "detected_names (snd (lb2 sid c1 c2)) = []"
    by (simp_all add: lb2_def)
qed

lemma lb3_detected:
  "detect_patterns
      (fst (update_state (at_update c3) (metrics 12 0.9 0.3 0.2 0.9 0.8) (fst (lb2 sid c1 c2))))
      (snd (update_state (at_update c3) (metrics 12 0.9 0.3 0.2 0.9 0.8) (fst (lb2 sid c1 c2))))
   = [(SYMBOLIC_FLOODING, 0.8, ''Overwhelming symbolic processing beyond integration capacity''),
      (IDENTITY_FRAGMENTATION, 0.7, ''Progressive loss of coherent self-concept'')] @
     (if at_update c3 - at_update c1 > 1800000000
      then [(RECURSIVE_SPIRAL, 0.9, ''Runaway recursive processing without resolution'')]
      else [])"
  by (simp add: lb2_quiet lb1_quiet detect_patterns_def update_state_def Let_def init_def
      metrics_def default_def initialize_detectors_def detector_defs total_seconds_def)

lemma lb2_catalog: "interventions (fst (lb2 sid c1 c2)) = initialize_interventions"
  by (simp add: lb2_quiet lb1_quiet update_state_fields init_def)

lemma lb3_selected:
  "select_intervention (at_select c3)
      (detect_patterns
         (fst (update_state (at_update c3) (metrics 12 0.9 0.3 0.2 0.9 0.8) (fst (lb2 sid c1 c2))))
         (snd (update_state (at_update c3) (metrics 12 0.9 0.3 0.2 0.9 0.8) (fst (lb2 sid c1 c2)))))
      (fst (update_state (at_update c3) (metrics 12 0.9 0.3 0.2 0.9 0.8) (fst (lb2 sid c1 c2))))
   = Inr (Some (if at_update c3 - at_update c1 > 1800000000
        then new_Intervention 0 GROUNDING 7 loop_breath_protocol
               ''Basic breathing and sensory grounding'' 10
        else new_Intervention 5 CONTAINMENT 10 emergency_containment
               ''Full system containment protocol'' 240))"
  unfolding lb3_detected
  by (simp add: select_intervention_def sort_by_confidence_def update_state_fields lb2_catalog
      initialize_interventions_def off_cooldown_def new_Intervention_def)

lemma lb3_names:
  "detected_names (snd (lb3 sid c1 c2 c3)) =
     [''symbolic_flooding'', ''identity_fragmentation''] @
     (if at_update c3 - at_update c1 > 1800000000 then [''recursive_spiral''] else [])"
  unfolding lb3_def process_cycle_names [OF lb3_selected] lb3_detected
  by simp

lemma lb3_flag:
  "active_containment (fst (lb3 sid c1 c2 c3)) \<longleftrightarrow> at_update c3 - at_update c1 \<le> 1800000000"
  unfolding lb3_def process_cycle_flag lb3_selected
  by (simp add: lb2_quiet lb1_quiet update_state_fields init_def new_Intervention_def)

lemma lb3_intervention:
  assumes "at_update c3 - at_update c1 \<le> 1800000000"
  shows "\<exists>d. intervention_of (snd (lb3 sid c1 c2 c3)) = Some d \<and>
     map_of d ''type'' = Some (PStr ''containment'') \<and>
     map_of d ''protocol'' = Some (PStr ''emergency_containment'')"
  using assms unfolding lb3_def process_cycle_intervention [OF lb3_selected]
  by (simp add: execute_intervention_def Let_def new_Intervention_def emergency_containment_def
      update_conv')

text \<open>
  Claim C1, as the code has it. On a fresh engine the three cycles of the test session
  detect no pattern on the first cycle and none on the second; the third cycle detects
  symbolic flooding and identity fragmentation and does not detect a containment breach.
  The containment flag is true after the third cycle exactly when the third snapshot is
  taken no more than 30 minutes after the first; in that case the cycle invokes the
  emergency containment, an intervention of the containment category. (After more than 30
  minutes the recursive spiral, of greater confidence, is detected too and a grounding
  intervention is chosen.)
\<close>

theorem test_session_outcome:
  "detected_names (snd (lb1 sid c1)) = [] \<and>
   detected_names (snd (lb2 sid c1 c2)) = [] \<and>
   ''symbolic_flooding'' \<in> set (detected_names (snd (lb3 sid c1 c2 c3))) \<and>
   ''identity_fragmentation'' \<in> set (detected_names (snd (lb3 sid c1 c2 c3))) \<and>
   ''containment_breach'' \<notin> set (detected_names (snd (lb3 sid c1 c2 c3))) \<and>
   (active_containment (fst (lb3 sid c1 c2 c3)) \<longleftrightarrow>
      at_update c3 - at_update c1 \<le> 1800000000) \<and>
   (at_update c3 - at_update c1 \<le> 1800000000 \<longrightarrow>
      (\<exists>d. intervention_of (snd (lb3 sid c1 c2 c3)) = Some d \<and>
         map_of d ''type'' = Some (PStr ''containment'') \<and>
         map_of d ''protocol'' = Some (PStr ''emergency_containment'')))"
  using lb3_intervention [of c3 c1 sid c2]
  by (simp add: lb1_quiet lb2_quiet lb3_names lb3_flag)

text \<open>The three cycles one second apart.\<close>

theorem test_session_outcome_witness:
  "active_containment
     (fst (lb3 ''s'' \<lparr>at_update = 0, at_select = 1, at_execute = 2\<rparr>
        \<lparr>at_update = 1000000, at_select = 1000001, at_execute = 1000002\<rparr>
        \<lparr>at_update = 2000000, at_select = 2000001, at_execute = 2000002\<rparr>)) \<and>
   (\<exists>d. intervention_of
      (snd (lb3 ''s'' \<lparr>at_update = 0, at_select = 1, at_execute = 2\<rparr>
        \<lparr>at_update = 1000000, at_select = 1000001, at_execute = 1000002\<rparr>
        \<lparr>at_update = 2000000, at_select = 2000001, at_execute = 2000002\<rparr>)) = Some d \<and>
      map_of d ''type'' = Some (PStr ''containment''))"
  using test_session_outcome [of "''s''" "\<lparr>at_update = 0, at_select = 1, at_execute = 2\<rparr>"
      "\<lparr>at_update = 1000000, at_select = 1000001, at_execute = 1000002\<rparr>"
      "\<lparr>at_update = 2000000, at_select = 2000001, at_execute = 2000002\<rparr>"]
  by auto

text \<open>
  Claim C1 as stated asks for a non-empty set of patterns on the second cycle and for a
  containment breach on the third. With every reading of the clock at instant 0, the
  second cycle detects nothing and the third detects no containment breach.
\<close>

theorem test_session_no_breach:
  "detected_names
     (snd (lb2 ''s'' \<lparr>at_update = 0, at_select = 0, at_execute = 0\<rparr>
        \<lparr>at_update = 0, at_select = 0, at_execute = 0\<rparr>)) = [] \<and>
   ''containment_breach'' \<notin> set (detected_names
     (snd (lb3 ''s'' \<lparr>at_update = 0, at_select = 0, at_execute = 0\<rparr>
        \<lparr>at_update = 0, at_select = 0, at_execute = 0\<rparr>
        \<lparr>at_update = 0, at_select = 0, at_execute = 0\<rparr>)))"
  by (simp add: lb2_quiet lb3_names)

end
